theory Spec2Isabelle
  imports Complex_Main "HOL-Library.Word"
begin

section \<open>Classroom noise monitor: thresholds, calibration, zones, schedule, quiet reward\<close>

text \<open>
  A shallow embedding of the algorithmic core of \<^verbatim>\<open>Beta4_20260106153844.ino\<close>.
  Conventions of the embedding:
  \<^item> \<^verbatim>\<open>float\<close> and \<^verbatim>\<open>double\<close> values that the code only adds, scales and compares are
    modelled as \<open>real\<close> (exact arithmetic, no rounding); where the code tests
    \<^verbatim>\<open>isfinite\<close>, and where a value comes unchecked from the preferences store, it is a
    \<open>cfloat\<close>, which also has NaN and the infinities;
  \<^item> \<^verbatim>\<open>unsigned long\<close> and \<^verbatim>\<open>uint32_t\<close> are \<open>32 word\<close> (the target is a 32-bit ESP32), so
    \<open>+\<close> and \<open>-\<close> wrap as in the code; \<^verbatim>\<open>int\<close> and \<^verbatim>\<open>time_t\<close> are \<open>int\<close>;
  \<^item> a \<^verbatim>\<open>const char*\<close> parameter is a \<open>string option\<close>, \<open>None\<close> being the null pointer;
  \<^item> the globals of the sketch are fields of explicit state records, and every function
    that writes a global returns the updated record.
\<close>

subsection \<open>Floats\<close>

text \<open>A C \<^verbatim>\<open>float\<close> as \<^verbatim>\<open>isfinite\<close> sees it.\<close>

datatype cfloat = Finite real | PosInf | NegInf | NaN

fun isfinite :: "cfloat \<Rightarrow> bool" where
  "isfinite (Finite r) = True"
| "isfinite PosInf = False"
| "isfinite NegInf = False"
| "isfinite NaN = False"

text \<open>The cast \<^verbatim>\<open>(double)avgDB\<close>; the code reaches it only behind the \<^verbatim>\<open>isfinite\<close> guard.\<close>

fun to_double :: "cfloat \<Rightarrow> real" where
  "to_double (Finite r) = r"
| "to_double PosInf = 0"
| "to_double NegInf = 0"
| "to_double NaN = 0"

text \<open>
  The comparisons and the addition of C on such values: every comparison with NaN is
  false, the infinities compare as the ends of the line, and finite values compare and
  add as reals (no rounding).
\<close>

fun flt :: "cfloat \<Rightarrow> cfloat \<Rightarrow> bool" where
  "flt (Finite a) (Finite b) = (a < b)"
| "flt (Finite a) PosInf = True"
| "flt (Finite a) NegInf = False"
| "flt (Finite a) NaN = False"
| "flt PosInf y = False"
| "flt NegInf (Finite b) = True"
| "flt NegInf PosInf = True"
| "flt NegInf NegInf = False"
| "flt NegInf NaN = False"
| "flt NaN y = False"

definition fle :: "cfloat \<Rightarrow> cfloat \<Rightarrow> bool" where
  "fle x y = (x \<noteq> NaN \<and> y \<noteq> NaN \<and> \<not> flt y x)"

fun fneg :: "cfloat \<Rightarrow> cfloat" where
  "fneg (Finite a) = Finite (- a)"
| "fneg PosInf = NegInf"
| "fneg NegInf = PosInf"
| "fneg NaN = NaN"

fun fadd :: "cfloat \<Rightarrow> cfloat \<Rightarrow> cfloat" where
  "fadd (Finite a) (Finite b) = Finite (a + b)"
| "fadd (Finite a) PosInf = PosInf"
| "fadd (Finite a) NegInf = NegInf"
| "fadd (Finite a) NaN = NaN"
| "fadd PosInf (Finite b) = PosInf"
| "fadd PosInf PosInf = PosInf"
| "fadd PosInf NegInf = NaN"
| "fadd PosInf NaN = NaN"
| "fadd NegInf (Finite b) = NegInf"
| "fadd NegInf PosInf = NaN"
| "fadd NegInf NegInf = NegInf"
| "fadd NegInf NaN = NaN"
| "fadd NaN y = NaN"

definition fsub :: "cfloat \<Rightarrow> cfloat \<Rightarrow> cfloat" where
  "fsub x y = fadd x (fneg y)"

subsection \<open>Thresholds and year bands\<close>

record Thresholds =
  greenMax :: real
  amberMax :: real
  redWarnDb :: real

record Guardrails =
  gMin :: real
  gMax :: real
  aMin :: real
  aMax :: real
  rMin :: real
  rMax :: real

definition mkTh :: "real \<Rightarrow> real \<Rightarrow> real \<Rightarrow> Thresholds" where
  "mkTh g a r = \<lparr>greenMax = g, amberMax = a, redWarnDb = r\<rparr>"

definition mkGr :: "real \<Rightarrow> real \<Rightarrow> real \<Rightarrow> real \<Rightarrow> real \<Rightarrow> real \<Rightarrow> Guardrails" where
  "mkGr g0 g1 a0 a1 r0 r1 = \<lparr>gMin = g0, gMax = g1, aMin = a0, aMax = a1, rMin = r0, rMax = r1\<rparr>"

text \<open>\<^verbatim>\<open>String::toUpperCase\<close>: \<^verbatim>\<open>toupper\<close> on every byte (ASCII letters only).\<close>

definition toupper :: "char \<Rightarrow> char" where
  "toupper c =
     (if 97 \<le> (of_char c :: nat) \<and> (of_char c :: nat) \<le> 122
      then char_of ((of_char c :: nat) - 32) else c)"

definition toUpperCase :: "string \<Rightarrow> string" where
  "toUpperCase s = map toupper s"

definition thresholdsForBand :: "string option \<Rightarrow> Thresholds" where
  "thresholdsForBand band =
     (case band of
        None \<Rightarrow> mkTh 46 49 51
      | Some bs \<Rightarrow>
          (let b = toUpperCase bs in
           if b = ''RY1'' then mkTh 50 53 56
           else if b = ''Y2Y3'' then mkTh 49 52 55
           else if b = ''Y4Y6'' then mkTh 46 49 51
           else if b = ''SEND'' then mkTh 52 56 60
           else mkTh 46 49 51))"

definition guardrailsForBand :: "string option \<Rightarrow> Guardrails" where
  "guardrailsForBand band =
     (let b = toUpperCase (case band of None \<Rightarrow> [] | Some bs \<Rightarrow> bs) in
      if b = ''SEND'' then mkGr 42 55 46 60 50 66
      else if b = ''RY1'' then mkGr 40 52 44 56 48 60
      else if b = ''Y2Y3'' then mkGr 38 52 42 56 46 60
      else if b = ''Y4Y6'' then mkGr 40 54 45 58 49 62
      else mkGr 39 52 44 56 48 60)"

definition clampf :: "real \<Rightarrow> real \<Rightarrow> real \<Rightarrow> real" where
  "clampf v lo hi = (if v < lo then lo else if v > hi then hi else v)"

definition GAP_GA :: real where "GAP_GA = 2"
definition GAP_AR :: real where "GAP_AR = 2"

definition normalizeThresholds :: "Thresholds \<Rightarrow> Thresholds" where
  "normalizeThresholds th =
     (let th1 = (if amberMax th < greenMax th + GAP_GA
                 then th\<lparr>amberMax := greenMax th + GAP_GA\<rparr> else th);
          th2 = (if redWarnDb th1 < amberMax th1 + GAP_AR
                 then th1\<lparr>redWarnDb := amberMax th1 + GAP_AR\<rparr> else th1)
      in th2)"

definition applyGuardrails :: "Thresholds \<Rightarrow> string option \<Rightarrow> Thresholds" where
  "applyGuardrails th band =
     (let gr = guardrailsForBand band;
          th1 = th\<lparr>greenMax := clampf (greenMax th) (gMin gr) (gMax gr)\<rparr>;
          th2 = th1\<lparr>amberMax := clampf (amberMax th1) (aMin gr) (aMax gr)\<rparr>;
          th3 = th2\<lparr>redWarnDb := clampf (redWarnDb th2) (rMin gr) (rMax gr)\<rparr>
      in normalizeThresholds th3)"

text \<open>
  The same three functions on a threshold triple whose fields may be NaN or infinite, as
  a triple read back from the preferences store may be: \<^verbatim>\<open>clampf\<close>,
  \<^verbatim>\<open>normalizeThresholds\<close> and \<^verbatim>\<open>applyGuardrails\<close> with the comparisons of C. On
  triples of finite fields they are the functions above.
\<close>

record Thresholds_ieee =
  greenMax_ieee :: cfloat
  amberMax_ieee :: cfloat
  redWarnDb_ieee :: cfloat

definition clampf_ieee :: "cfloat \<Rightarrow> cfloat \<Rightarrow> cfloat \<Rightarrow> cfloat" where
  "clampf_ieee v lo hi = (if flt v lo then lo else if flt hi v then hi else v)"

definition normalizeThresholds_ieee :: "Thresholds_ieee \<Rightarrow> Thresholds_ieee" where
  "normalizeThresholds_ieee th =
     (let th1 = (if flt (amberMax_ieee th) (fadd (greenMax_ieee th) (Finite GAP_GA))
                 then th\<lparr>amberMax_ieee := fadd (greenMax_ieee th) (Finite GAP_GA)\<rparr> else th);
          th2 = (if flt (redWarnDb_ieee th1) (fadd (amberMax_ieee th1) (Finite GAP_AR))
                 then th1\<lparr>redWarnDb_ieee := fadd (amberMax_ieee th1) (Finite GAP_AR)\<rparr> else th1)
      in th2)"

definition applyGuardrails_ieee :: "Thresholds_ieee \<Rightarrow> string option \<Rightarrow> Thresholds_ieee" where
  "applyGuardrails_ieee th band =
     (let gr = guardrailsForBand band;
          th1 = th\<lparr>greenMax_ieee :=
                    clampf_ieee (greenMax_ieee th) (Finite (gMin gr)) (Finite (gMax gr))\<rparr>;
          th2 = th1\<lparr>amberMax_ieee :=
                    clampf_ieee (amberMax_ieee th1) (Finite (aMin gr)) (Finite (aMax gr))\<rparr>;
          th3 = th2\<lparr>redWarnDb_ieee :=
                    clampf_ieee (redWarnDb_ieee th2) (Finite (rMin gr)) (Finite (rMax gr))\<rparr>
      in normalizeThresholds_ieee th3)"

text \<open>A triple of finite fields among those triples.\<close>

definition finiteThresholds :: "Thresholds \<Rightarrow> Thresholds_ieee" where
  "finiteThresholds th =
     \<lparr>greenMax_ieee = Finite (greenMax th), amberMax_ieee = Finite (amberMax th),
      redWarnDb_ieee = Finite (redWarnDb th)\<rparr>"

subsection \<open>Room calibration statistics\<close>

text \<open>The calibration globals, with the active threshold set and the year band they use.\<close>

record cal_state =
  roomCalEnabled :: bool
  roomCalComplete :: bool
  roomCalStartEpoch :: int
  calCount :: "32 word"
  calMean :: real
  calM2 :: real
  calMinDb :: real
  calMaxDb :: real
  CAL_TH :: Thresholds
  ACTIVE_TH :: Thresholds
  yearBand :: string

definition hasValidTime :: "int \<Rightarrow> bool" where
  "hasValidTime t = (t > 1700000000)"

definition ROOM_CAL_DAYS :: "32 word" where "ROOM_CAL_DAYS = 5"
definition ROOM_CAL_SECONDS :: "32 word" where
  "ROOM_CAL_SECONDS = ROOM_CAL_DAYS * 24 * 60 * 60"

definition resetRoomCalibration :: "int \<Rightarrow> cal_state \<Rightarrow> cal_state" where
  "resetRoomCalibration nowEpoch s =
     s\<lparr>roomCalComplete := False,
       roomCalStartEpoch := (if hasValidTime nowEpoch then nowEpoch else 0),
       calCount := 0, calMean := 0, calM2 := 0, calMinDb := 9999, calMaxDb := - 9999,
       CAL_TH := applyGuardrails (thresholdsForBand (Some (yearBand s))) (Some (yearBand s))\<rparr>"

definition updateRoomCalibration :: "cfloat \<Rightarrow> cal_state \<Rightarrow> cal_state" where
  "updateRoomCalibration avgDB s =
     (if \<not> isfinite avgDB then s
      else
        let n = calCount s + 1;
            x = to_double avgDB;
            delta = x - calMean s;
            mean' = calMean s + delta / real (unat n);
            delta2 = x - mean';
            m2' = calM2 s + delta * delta2;
            s1 = s\<lparr>calCount := n, calMean := mean', calM2 := m2'\<rparr>;
            s2 = (if x < calMinDb s1 then s1\<lparr>calMinDb := x\<rparr> else s1);
            s3 = (if x > calMaxDb s2 then s2\<lparr>calMaxDb := x\<rparr> else s2)
        in s3)"

definition calibrationWindowActive :: "int \<Rightarrow> cal_state \<Rightarrow> bool" where
  "calibrationWindowActive nowEpoch s =
     (if \<not> roomCalEnabled s then False
      else if roomCalComplete s then False
      else if \<not> hasValidTime nowEpoch then False
      else if \<not> hasValidTime (roomCalStartEpoch s) then False
      else (word_of_int (nowEpoch - roomCalStartEpoch s) :: 32 word) < ROOM_CAL_SECONDS)"

definition computeCalibratedThresholdsFromStats :: "string option \<Rightarrow> cal_state \<Rightarrow> Thresholds" where
  "computeCalibratedThresholdsFromStats band s =
     (if calCount s < 60 then applyGuardrails (thresholdsForBand band) band
      else
        let variance0 = (if calCount s > 1 then calM2 s / real (unat (calCount s - 1)) else 0);
            variance = (if variance0 < 0 then 0 else variance0);
            sd = sqrt variance;
            th = mkTh (calMean s + 0.90 * sd) (calMean s + 1.60 * sd) (calMean s + 2.40 * sd);
            th' = (if sd < 1.0
                   then mkTh (calMean s + 1.0) (calMean s + 3.0) (calMean s + 6.0) else th)
        in applyGuardrails th' band)"

definition finalizeRoomCalibrationIfDue :: "int \<Rightarrow> cal_state \<Rightarrow> cal_state" where
  "finalizeRoomCalibrationIfDue nowEpoch s =
     (if \<not> roomCalEnabled s then s
      else if roomCalComplete s then s
      else if \<not> hasValidTime nowEpoch \<or> \<not> hasValidTime (roomCalStartEpoch s) then s
      else
        let elapsed = (word_of_int (nowEpoch - roomCalStartEpoch s) :: 32 word) in
        if elapsed < ROOM_CAL_SECONDS then s
        else
          let s1 = s\<lparr>CAL_TH := computeCalibratedThresholdsFromStats (Some (yearBand s)) s\<rparr>;
              s2 = s1\<lparr>roomCalComplete := True\<rparr>
          in s2\<lparr>ACTIVE_TH := CAL_TH s2\<rparr>)"

text \<open>The initialisers of the calibration globals, of both threshold sets and of the band.\<close>

definition initial_cal_state :: cal_state where
  "initial_cal_state =
     \<lparr>roomCalEnabled = False, roomCalComplete = False, roomCalStartEpoch = 0,
      calCount = 0, calMean = 0, calM2 = 0, calMinDb = 9999, calMaxDb = - 9999,
      CAL_TH = mkTh 43 48 52, ACTIVE_TH = mkTh 43 48 52, yearBand = ''Y2Y3''\<rparr>"

text \<open>Feeding a sequence of samples, one call of \<open>updateRoomCalibration\<close> each, in order.\<close>

fun feedSamples :: "cfloat list \<Rightarrow> cal_state \<Rightarrow> cal_state" where
  "feedSamples [] s = s"
| "feedSamples (x # xs) s = feedSamples xs (updateRoomCalibration x s)"

text \<open>
  The closed forms the statistics are compared with: the arithmetic mean, the sum of
  squared deviations from it and the unbiased sample variance of a list of reals.
\<close>

definition arith_mean :: "real list \<Rightarrow> real" where
  "arith_mean xs = sum_list xs / real (length xs)"

definition sq_dev_sum :: "real list \<Rightarrow> real" where
  "sq_dev_sum xs = (\<Sum>x\<leftarrow>xs. (x - arith_mean xs)\<^sup>2)"

definition sample_variance :: "real list \<Rightarrow> real" where
  "sample_variance xs = sq_dev_sum xs / (real (length xs) - 1)"

subsection \<open>Colour zones and sticky hysteresis\<close>

datatype ColorZone = Z_GREEN | Z_AMBER | Z_DEEP | Z_RED

text \<open>The integer values of the enumeration, in the order of severity.\<close>

fun zoneIndex :: "ColorZone \<Rightarrow> nat" where
  "zoneIndex Z_GREEN = 0"
| "zoneIndex Z_AMBER = 1"
| "zoneIndex Z_DEEP = 2"
| "zoneIndex Z_RED = 3"

definition HYS_GA_DEFAULT :: real where "HYS_GA_DEFAULT = 0.7"
definition HYS_AD_DEFAULT :: real where "HYS_AD_DEFAULT = 0.9"
definition HYS_DR_DEFAULT :: real where "HYS_DR_DEFAULT = 1.0"

text \<open>\<^verbatim>\<open>strcmp(yearBand, "SEND") == 0\<close>: an exact comparison, no case folding.\<close>

definition isSendClassroom :: "string \<Rightarrow> bool" where
  "isSendClassroom yb = (yb = ''SEND'')"

text \<open>The globals \<^verbatim>\<open>ACTIVE_TH\<close> and \<^verbatim>\<open>yearBand\<close> are the first two parameters.\<close>

definition classifyZone :: "Thresholds \<Rightarrow> real \<Rightarrow> ColorZone" where
  "classifyZone th dB =
     (if dB \<le> greenMax th then Z_GREEN
      else if dB \<le> amberMax th then Z_AMBER
      else if dB \<le> redWarnDb th then Z_DEEP
      else Z_RED)"

definition hysGA :: "string \<Rightarrow> real" where
  "hysGA yb = (if isSendClassroom yb then 1.2 else HYS_GA_DEFAULT)"
definition hysAD :: "string \<Rightarrow> real" where
  "hysAD yb = (if isSendClassroom yb then 1.5 else HYS_AD_DEFAULT)"
definition hysDR :: real where
  "hysDR = HYS_DR_DEFAULT"

fun applyStickyHysteresis :: "Thresholds \<Rightarrow> string \<Rightarrow> ColorZone \<Rightarrow> real \<Rightarrow> ColorZone" where
  "applyStickyHysteresis th yb Z_GREEN dB =
     (if dB > greenMax th + hysGA yb then Z_AMBER else Z_GREEN)"
| "applyStickyHysteresis th yb Z_AMBER dB =
     (if dB < greenMax th - hysGA yb then Z_GREEN
      else if dB > amberMax th + hysAD yb then Z_DEEP
      else Z_AMBER)"
| "applyStickyHysteresis th yb Z_DEEP dB =
     (if dB < amberMax th - hysAD yb then Z_AMBER
      else if dB > redWarnDb th + hysDR then Z_RED
      else Z_DEEP)"
| "applyStickyHysteresis th yb Z_RED dB =
     (if dB < redWarnDb th - hysDR then Z_DEEP else Z_RED)"

text \<open>
  The control loop's use of it, \<^verbatim>\<open>currentZone = applyStickyHysteresis(currentZone, ledDB)\<close>,
  repeated \<open>n\<close> times at one value.
\<close>

fun iterateHysteresis :: "nat \<Rightarrow> Thresholds \<Rightarrow> string \<Rightarrow> ColorZone \<Rightarrow> real \<Rightarrow> ColorZone" where
  "iterateHysteresis 0 th yb z dB = z"
| "iterateHysteresis (Suc n) th yb z dB =
     iterateHysteresis n th yb (applyStickyHysteresis th yb z dB) dB"

subsection \<open>Timetable windows\<close>

datatype WindowState = OFF | LESSON | ASSEMBLY | BREAK | LUNCH

record timetable =
  useTimetable :: bool
  t_day_start :: string
  t_break1_start :: string
  t_break1_end :: string
  t_lunch_start :: string
  t_lunch_end :: string
  t_day_end :: string

definition TIMETABLE_ENABLED :: int where "TIMETABLE_ENABLED = 1"

definition isspace :: "char \<Rightarrow> bool" where
  "isspace c = ((of_char c :: nat) = 32 \<or> (9 \<le> (of_char c :: nat) \<and> (of_char c :: nat) \<le> 13))"

definition isdigit :: "char \<Rightarrow> bool" where
  "isdigit c = (48 \<le> (of_char c :: nat) \<and> (of_char c :: nat) \<le> 57)"

definition digitval :: "char \<Rightarrow> int" where
  "digitval c = int (of_char c) - 48"

text \<open>
  One \<^verbatim>\<open>%d\<close> conversion of \<^verbatim>\<open>sscanf\<close>: skip white space, read an optional sign and at
  least one decimal digit; the result is the value and the rest of the input, or \<open>None\<close>
  on a matching failure. (At most five characters are ever scanned, so no overflow.)
\<close>

definition scan_int :: "string \<Rightarrow> (int \<times> string) option" where
  "scan_int s =
     (let s1 = dropWhile isspace s;
          neg = (s1 \<noteq> [] \<and> hd s1 = CHR ''-'');
          s2 = (if s1 \<noteq> [] \<and> (hd s1 = CHR ''-'' \<or> hd s1 = CHR ''+'') then tl s1 else s1);
          ds = takeWhile isdigit s2;
          v = foldl (\<lambda>a c. 10 * a + digitval c) 0 ds
      in if ds = [] then None
         else Some (if neg then - v else v, dropWhile isdigit s2))"

text \<open>
  \<^verbatim>\<open>sscanf(hhmm, "%d:%d", &h, &m)\<close>: the number of conversions done (an end-of-input
  result counts as 0, the caller only tests for 2) and the values of \<open>h\<close> and \<open>m\<close>, both
  initialised to 0.
\<close>

definition sscanf_hm :: "string \<Rightarrow> nat \<times> int \<times> int" where
  "sscanf_hm s =
     (case scan_int s of
        None \<Rightarrow> (0, 0, 0)
      | Some (h, r) \<Rightarrow>
          (if r \<noteq> [] \<and> hd r = CHR '':'' then
             (case scan_int (tl r) of
                None \<Rightarrow> (1, h, 0)
              | Some (m, r') \<Rightarrow> (2, h, m))
           else (1, h, 0)))"

definition parseTimeToMins :: "string option \<Rightarrow> int" where
  "parseTimeToMins hhmm =
     (case hhmm of
        None \<Rightarrow> - 1
      | Some str \<Rightarrow>
          (let len = int (length str) in
           if len < 4 \<or> len > 5 then - 1
           else
             (case sscanf_hm str of (cnt, h, m) \<Rightarrow>
                if cnt \<noteq> 2 then - 1
                else if h < 0 \<or> h > 23 \<or> m < 0 \<or> m > 59 then - 1
                else h * 60 + m)))"

definition getWindowState :: "timetable \<Rightarrow> int \<Rightarrow> int \<Rightarrow> int \<Rightarrow> WindowState" where
  "getWindowState tt wday h m =
     (if \<not> useTimetable tt then LESSON
      else if TIMETABLE_ENABLED = 0 then LESSON
      else if wday < 1 \<or> wday > 5 then OFF
      else
        let mins = h * 60 + m;
            dayStart = parseTimeToMins (Some (t_day_start tt));
            break1Start = parseTimeToMins (Some (t_break1_start tt));
            break1End = parseTimeToMins (Some (t_break1_end tt));
            lunchStart = parseTimeToMins (Some (t_lunch_start tt));
            lunchEnd = parseTimeToMins (Some (t_lunch_end tt));
            dayEnd = parseTimeToMins (Some (t_day_end tt));
            configOk =
              (dayStart \<ge> 0 \<and> break1Start \<ge> 0 \<and> break1End \<ge> 0 \<and> lunchStart \<ge> 0
               \<and> lunchEnd \<ge> 0 \<and> dayEnd \<ge> 0
               \<and> dayStart < break1Start \<and> break1Start < break1End \<and> break1End \<le> lunchStart
               \<and> lunchStart < lunchEnd \<and> lunchEnd < dayEnd)
        in
          if \<not> configOk then
            (if mins \<ge> 530 \<and> mins < 625 then LESSON
             else if mins \<ge> 625 \<and> mins < 645 then ASSEMBLY
             else if mins \<ge> 645 \<and> mins < 660 then BREAK
             else if mins \<ge> 660 \<and> mins < 720 then LESSON
             else if mins \<ge> 720 \<and> mins < 780 then LUNCH
             else if mins \<ge> 780 \<and> mins < 920 then LESSON
             else OFF)
          else if mins < dayStart \<or> mins \<ge> dayEnd then OFF
          else if mins < break1Start then LESSON
          else if mins < break1End then BREAK
          else if mins < lunchStart then LESSON
          else if mins < lunchEnd then LUNCH
          else LESSON)"

text \<open>The timetable the sketch starts with.\<close>

definition default_timetable :: timetable where
  "default_timetable =
     \<lparr>useTimetable = True, t_day_start = ''08:50'', t_break1_start = ''10:30'',
      t_break1_end = ''10:45'', t_lunch_start = ''12:00'', t_lunch_end = ''13:00'',
      t_day_end = ''15:20''\<rparr>"

subsection \<open>Quiet reward: the control loop's reward state\<close>

datatype DeviceMode = MODE_NORMAL | MODE_HOLLY_HOP

definition REWARD_COOLDOWN_MS :: "32 word" where "REWARD_COOLDOWN_MS = 3 * 60 * 1000"
definition REWARD_BREAK_MARGIN_DB :: real where "REWARD_BREAK_MARGIN_DB = 1.5"
definition SPIKE_PENALTY_MS :: "32 word" where "SPIKE_PENALTY_MS = 2 * 60 * 1000"
definition REWARD_SPIKE_MARGIN_DB :: real where "REWARD_SPIKE_MARGIN_DB = 8.0"
definition MIN_LESSON_BEFORE_REWARD_MS :: "32 word" where
  "MIN_LESSON_BEFORE_REWARD_MS = 2 * 60 * 1000"
definition QUIET_REWARD_MS :: "32 word" where "QUIET_REWARD_MS = 120000"
definition REWARD_DURATION_MS :: "32 word" where "REWARD_DURATION_MS = 3000"
definition REWARD_LOG_WINDOW_MS :: "32 word" where "REWARD_LOG_WINDOW_MS = 130000"
definition SILENCE_DURATION_MS :: "32 word" where "SILENCE_DURATION_MS = 300000"
definition SLEEP_DB_THRESHOLD :: real where "SLEEP_DB_THRESHOLD = 30.0"
definition WAKE_DB_THRESHOLD :: real where "WAKE_DB_THRESHOLD = 23.0"

text \<open>The globals that the reward part of \<^verbatim>\<open>loop()\<close> reads and writes.\<close>

record loop_state =
  quietStartMs :: "32 word"
  rewardStartMs :: "32 word"
  rewardShowing :: bool
  rewardActiveForLog :: bool
  rewardLogUntilMs :: "32 word"
  rewardCooldownUntilMs :: "32 word"
  penaltyUntilMs :: "32 word"
  needsResetAboveGood :: bool
  lessonStartMs :: "32 word"
  lastWs :: WindowState
  silenceStart :: "32 word"
  inSleepMode :: bool

text \<open>
  What one iteration of \<^verbatim>\<open>loop()\<close> takes from its environment: \<open>nowMs\<close> is the value of
  \<^verbatim>\<open>millis()\<close> read at the top of the iteration, \<open>dispMs\<close> the second reading taken by
  the reward animation step, \<open>ws\<close> the result of \<^verbatim>\<open>getWindowState\<close>, \<open>deviceMode\<close> the mode
  after button handling, \<open>avgDB\<close> the result of \<^verbatim>\<open>calculateAverage()\<close> (always finite: the
  history only ever holds finite samples) and \<open>activeTh\<close> the value of \<^verbatim>\<open>ACTIVE_TH\<close> when
  the reward block runs.
\<close>

record tick =
  nowMs :: "32 word"
  dispMs :: "32 word"
  ws :: WindowState
  deviceMode :: DeviceMode
  avgDB :: real
  activeTh :: Thresholds

text \<open>How an iteration of \<^verbatim>\<open>loop()\<close> ends: each value is one of its \<^verbatim>\<open>return\<close> points.\<close>

datatype LoopOutcome =
  RewardGranted | RewardSwirl | SleepRainbow | LedUpdate | BlueBreathing | StripCleared

text \<open>The initialisers of the globals, then \<^verbatim>\<open>lessonStartMs = millis()\<close> at the end of \<^verbatim>\<open>setup()\<close>.\<close>

definition initial_state :: "32 word \<Rightarrow> loop_state" where
  "initial_state bootMs =
     \<lparr>quietStartMs = 0, rewardStartMs = 0, rewardShowing = False,
      rewardActiveForLog = False, rewardLogUntilMs = 0,
      rewardCooldownUntilMs = 0, penaltyUntilMs = 0, needsResetAboveGood = False,
      lessonStartMs = bootMs, lastWs = OFF, silenceStart = 0, inSleepMode = False\<rparr>"

text \<open>\<^verbatim>\<open>ACTIVE_TH\<close> as \<^verbatim>\<open>setup()\<close> selects it when no calibration result is in use.\<close>

definition bandActiveThresholds :: "string \<Rightarrow> Thresholds" where
  "bandActiveThresholds yb = applyGuardrails (thresholdsForBand (Some yb)) (Some yb)"

text \<open>Detecting the transition into LESSON.\<close>

definition lessonTransition :: "tick \<Rightarrow> loop_state \<Rightarrow> loop_state" where
  "lessonTransition t s =
     (let s1 = (if ws t = LESSON \<and> lastWs s \<noteq> LESSON
                then s\<lparr>lessonStartMs := nowMs t, quietStartMs := 0\<rparr> else s)
      in s1\<lparr>lastWs := ws t\<rparr>)"

text \<open>Sleep detection on the rolling average.\<close>

definition sleepDetection :: "tick \<Rightarrow> loop_state \<Rightarrow> loop_state" where
  "sleepDetection t s =
     (let s1 = (if avgDB t < SLEEP_DB_THRESHOLD then
                  let sa = (if silenceStart s = 0 then s\<lparr>silenceStart := nowMs t\<rparr> else s)
                  in (if \<not> inSleepMode sa \<and> nowMs t - silenceStart sa \<ge> SILENCE_DURATION_MS
                      then sa\<lparr>inSleepMode := True\<rparr> else sa)
                else s\<lparr>silenceStart := 0\<rparr>)
      in if avgDB t \<ge> WAKE_DB_THRESHOLD \<and> inSleepMode s1
         then s1\<lparr>inSleepMode := False\<rparr> else s1)"

text \<open>
  The quiet-reward block. The second component is \<open>True\<close> exactly when the reward is
  granted, where the code leaves \<^verbatim>\<open>loop()\<close> at once.
\<close>

definition rewardLogic :: "tick \<Rightarrow> loop_state \<Rightarrow> loop_state \<times> bool" where
  "rewardLogic t s =
     (if \<not> rewardShowing s \<and> deviceMode t = MODE_NORMAL then
        let goodDb = greenMax (activeTh t);
            breakDb = goodDb + REWARD_BREAK_MARGIN_DB;
            spikeDb = goodDb + REWARD_SPIKE_MARGIN_DB
        in
        if nowMs t - lessonStartMs s < MIN_LESSON_BEFORE_REWARD_MS then
          (s\<lparr>quietStartMs := 0\<rparr>, False)
        else if avgDB t \<ge> spikeDb then
          (s\<lparr>penaltyUntilMs := nowMs t + SPIKE_PENALTY_MS, quietStartMs := 0,
             needsResetAboveGood := True\<rparr>, False)
        else
          let s1 = (if avgDB t > goodDb then s\<lparr>needsResetAboveGood := False\<rparr> else s) in
          if nowMs t < rewardCooldownUntilMs s1 \<or> nowMs t < penaltyUntilMs s1 then
            (s1\<lparr>quietStartMs := 0\<rparr>, False)
          else
            let s2 = (if needsResetAboveGood s1 then
                        (if avgDB t > goodDb then s1\<lparr>needsResetAboveGood := False\<rparr>
                         else s1\<lparr>quietStartMs := 0\<rparr>)
                      else s1)
            in
            if \<not> needsResetAboveGood s2 then
              (if avgDB t \<le> goodDb then
                 let s3 = (if quietStartMs s2 = 0 then s2\<lparr>quietStartMs := nowMs t\<rparr> else s2) in
                 if nowMs t - quietStartMs s3 \<ge> QUIET_REWARD_MS then
                   (s3\<lparr>rewardCooldownUntilMs := nowMs t + REWARD_COOLDOWN_MS,
                       needsResetAboveGood := True,
                       rewardActiveForLog := True,
                       rewardLogUntilMs := nowMs t + REWARD_LOG_WINDOW_MS,
                       rewardShowing := True,
                       rewardStartMs := nowMs t,
                       quietStartMs := 0\<rparr>, True)
                 else (s3, False)
               else if avgDB t \<ge> breakDb then (s2\<lparr>quietStartMs := 0\<rparr>, False)
               else (s2, False))
            else (s2, False)
      else (s, False))"

text \<open>
  The reward animation step. The second component is \<open>True\<close> when the swirl is still
  being shown, where the code leaves \<^verbatim>\<open>loop()\<close>.
\<close>

definition rewardDisplay :: "tick \<Rightarrow> loop_state \<Rightarrow> loop_state \<times> bool" where
  "rewardDisplay t s =
     (if rewardShowing s then
        (if dispMs t - rewardStartMs s < REWARD_DURATION_MS then (s, True)
         else (s\<lparr>rewardShowing := False, quietStartMs := 0\<rparr>, False))
      else (s, False))"

text \<open>\<^verbatim>\<open>(long)(nowMs - rewardLogUntilMs) >= 0\<close>: a signed reading of the 32-bit difference.\<close>

definition rewardLogExpiry :: "tick \<Rightarrow> loop_state \<Rightarrow> loop_state" where
  "rewardLogExpiry t s =
     (if rewardActiveForLog s \<and> sint (nowMs t - rewardLogUntilMs s) \<ge> 0
      then s\<lparr>rewardActiveForLog := False\<rparr> else s)"

text \<open>
  One iteration of \<^verbatim>\<open>loop()\<close>, projected on the reward state: the lesson transition, then
  in a LESSON window sleep detection, the reward block, the animation step and the log
  flag; the calibration step in between only changes \<^verbatim>\<open>ACTIVE_TH\<close>, which the tick carries.
\<close>

definition loop_tick :: "tick \<Rightarrow> loop_state \<Rightarrow> loop_state \<times> LoopOutcome" where
  "loop_tick t s =
     (let s0 = lessonTransition t s in
      if ws t = LESSON then
        let s1 = sleepDetection t s0 in
        if inSleepMode s1 then (s1, SleepRainbow)
        else
          (case rewardLogic t s1 of (s2, granted) \<Rightarrow>
             if granted then (s2, RewardGranted)
             else
               (case rewardDisplay t s2 of (s3, swirling) \<Rightarrow>
                  if swirling then (s3, RewardSwirl)
                  else (rewardLogExpiry t s3, LedUpdate)))
      else if ws t = ASSEMBLY \<or> ws t = BREAK \<or> ws t = LUNCH then (s0, BlueBreathing)
      else (s0, StripCleared))"

text \<open>Running the loop over a sequence of ticks: the final state, and how each iteration ended.\<close>

fun run :: "loop_state \<Rightarrow> tick list \<Rightarrow> loop_state" where
  "run s [] = s"
| "run s (t # ts) = run (fst (loop_tick t s)) ts"

fun outcomes :: "loop_state \<Rightarrow> tick list \<Rightarrow> LoopOutcome list" where
  "outcomes s [] = []"
| "outcomes s (t # ts) = snd (loop_tick t s) # outcomes (fst (loop_tick t s)) ts"

text \<open>
  A tick of the two end-to-end scenarios: a LESSON window, normal mode, the active
  thresholds of band Y2Y3, both clock readings equal to \<open>now\<close>, rolling average \<open>avg\<close>.
\<close>

definition lessonTick :: "32 word \<Rightarrow> real \<Rightarrow> tick" where
  "lessonTick now avg =
     \<lparr>nowMs = now, dispMs = now, ws = LESSON, deviceMode = MODE_NORMAL, avgDB = avg,
      activeTh = bandActiveThresholds ''Y2Y3''\<rparr>"

text \<open>Such ticks at the given clock values, in order.\<close>

definition feedAt :: "32 word list \<Rightarrow> real \<Rightarrow> tick list" where
  "feedAt clocks avg = map (\<lambda>now. lessonTick now avg) clocks"

text \<open>A steady feed: \<open>n\<close> such ticks, \<open>step\<close> milliseconds apart, the first at \<open>start\<close>.\<close>

fun steadyFeed :: "32 word \<Rightarrow> 32 word \<Rightarrow> nat \<Rightarrow> real \<Rightarrow> tick list" where
  "steadyFeed start step 0 avg = []"
| "steadyFeed start step (Suc n) avg = lessonTick start avg # steadyFeed (start + step) step n avg"

text \<open>
  The states of the quiet-reward machine during a lesson, as predicates on the globals:
  idle (no streak) in a lesson that started at \<open>l\<close>; a streak running since \<open>q\<close> with no
  lockout left; the reward animation running since \<open>r\<close>; idle again after a reward, with
  the flag still set.
\<close>

definition idleAt :: "32 word \<Rightarrow> loop_state \<Rightarrow> bool" where
  "idleAt l s \<longleftrightarrow>
     \<not> rewardShowing s \<and> \<not> needsResetAboveGood s \<and> quietStartMs s = 0
     \<and> lastWs s = LESSON \<and> lessonStartMs s = l"

definition streakingFrom :: "32 word \<Rightarrow> 32 word \<Rightarrow> loop_state \<Rightarrow> bool" where
  "streakingFrom q l s \<longleftrightarrow>
     \<not> rewardShowing s \<and> \<not> needsResetAboveGood s \<and> quietStartMs s = q
     \<and> lastWs s = LESSON \<and> lessonStartMs s = l
     \<and> rewardCooldownUntilMs s \<le> q \<and> penaltyUntilMs s \<le> q"

definition showingSince :: "32 word \<Rightarrow> loop_state \<Rightarrow> bool" where
  "showingSince r s \<longleftrightarrow>
     rewardShowing s \<and> rewardStartMs s = r \<and> needsResetAboveGood s \<and> quietStartMs s = 0
     \<and> lastWs s = LESSON"

definition idleFlagged :: "loop_state \<Rightarrow> bool" where
  "idleFlagged s \<longleftrightarrow>
     \<not> rewardShowing s \<and> needsResetAboveGood s \<and> quietStartMs s = 0 \<and> lastWs s = LESSON"

section \<open>Properties\<close>

subsection \<open>Guardrail application\<close>

lemma guardrailsForBand_cases:
  "guardrailsForBand band \<in>
     {mkGr 42 55 46 60 50 66, mkGr 40 52 44 56 48 60, mkGr 38 52 42 56 46 60,
      mkGr 40 54 45 58 49 62, mkGr 39 52 44 56 48 60}"
  by (simp add: guardrailsForBand_def Let_def)

lemma guardrails_wellformed:
  "gMin (guardrailsForBand band) \<le> gMax (guardrailsForBand band)
   \<and> aMin (guardrailsForBand band) \<le> aMax (guardrailsForBand band)
   \<and> rMin (guardrailsForBand band) \<le> rMax (guardrailsForBand band)
   \<and> gMax (guardrailsForBand band) + 2 \<le> aMax (guardrailsForBand band)
   \<and> aMax (guardrailsForBand band) + 2 \<le> rMax (guardrailsForBand band)"
  using guardrailsForBand_cases [of band] by (auto simp: mkGr_def)

lemma clampf_bounds: "lo \<le> hi \<Longrightarrow> lo \<le> clampf v lo hi \<and> clampf v lo hi \<le> hi"
  by (simp add: clampf_def)

lemma normalizeThresholds_fields:
  "greenMax (normalizeThresholds th) = greenMax th"
  "amberMax (normalizeThresholds th) = max (amberMax th) (greenMax th + 2)"
  "redWarnDb (normalizeThresholds th) = max (redWarnDb th) (max (amberMax th) (greenMax th + 2) + 2)"
  by (simp_all add: normalizeThresholds_def Let_def GAP_GA_def GAP_AR_def max_def)

lemma applyGuardrails_fields:
  "greenMax (applyGuardrails th band) =
     clampf (greenMax th) (gMin (guardrailsForBand band)) (gMax (guardrailsForBand band))"
  "amberMax (applyGuardrails th band) =
     max (clampf (amberMax th) (aMin (guardrailsForBand band)) (aMax (guardrailsForBand band)))
         (greenMax (applyGuardrails th band) + 2)"
  "redWarnDb (applyGuardrails th band) =
     max (clampf (redWarnDb th) (rMin (guardrailsForBand band)) (rMax (guardrailsForBand band)))
         (amberMax (applyGuardrails th band) + 2)"
  by (simp_all add: applyGuardrails_def Let_def normalizeThresholds_fields)

text \<open>
  On triples of finite fields the result of \<open>applyGuardrails\<close> has both gaps, and each of
  its fields lies between the minimum and the maximum that \<open>guardrailsForBand\<close> gives.
\<close>

lemma applyGuardrails_gap_and_bounds:
  "greenMax (applyGuardrails th band) < amberMax (applyGuardrails th band) - 1
   \<and> amberMax (applyGuardrails th band) < redWarnDb (applyGuardrails th band) - 1
   \<and> gMin (guardrailsForBand band) \<le> greenMax (applyGuardrails th band)
   \<and> greenMax (applyGuardrails th band) \<le> gMax (guardrailsForBand band)
   \<and> aMin (guardrailsForBand band) \<le> amberMax (applyGuardrails th band)
   \<and> amberMax (applyGuardrails th band) \<le> aMax (guardrailsForBand band)
   \<and> rMin (guardrailsForBand band) \<le> redWarnDb (applyGuardrails th band)
   \<and> redWarnDb (applyGuardrails th band) \<le> rMax (guardrailsForBand band)"
proof -
  define gr where "gr = guardrailsForBand band"
  define g where "g = greenMax (applyGuardrails th band)"
  define a where "a = amberMax (applyGuardrails th band)"
  define r where "r = redWarnDb (applyGuardrails th band)"
  define ca where "ca = clampf (amberMax th) (aMin gr) (aMax gr)"
  define cr where "cr = clampf (redWarnDb th) (rMin gr) (rMax gr)"
  have wf: "gMin gr \<le> gMax gr" "aMin gr \<le> aMax gr" "rMin gr \<le> rMax gr"
    "gMax gr + 2 \<le> aMax gr" "aMax gr + 2 \<le> rMax gr"
    using guardrails_wellformed [of band] by (simp_all add: gr_def)
  have gb: "gMin gr \<le> g" "g \<le> gMax gr"
    using clampf_bounds [OF wf(1), of "greenMax th"]
    by (simp_all add: g_def gr_def applyGuardrails_fields(1))
  have cab: "aMin gr \<le> ca" "ca \<le> aMax gr"
    using clampf_bounds [OF wf(2), of "amberMax th"] by (simp_all add: ca_def)
  have crb: "rMin gr \<le> cr" "cr \<le> rMax gr"
    using clampf_bounds [OF wf(3), of "redWarnDb th"] by (simp_all add: cr_def)
  have a_eq: "a = max ca (g + 2)"
    by (simp add: a_def g_def ca_def gr_def applyGuardrails_fields(2))
  have r_eq: "r = max cr (a + 2)"
    by (simp add: r_def a_def cr_def gr_def applyGuardrails_fields(3))
  have "g < a - 1" using a_eq by simp
  moreover have "a < r - 1" using r_eq by simp
  moreover have "aMin gr \<le> a" using a_eq cab(1) by simp
  moreover have ab: "a \<le> aMax gr" using a_eq cab(2) gb(2) wf(4) by simp
  moreover have "rMin gr \<le> r" using r_eq crb(1) by simp
  moreover have "r \<le> rMax gr" using r_eq crb(2) ab wf(5) by simp
  ultimately show ?thesis
    using gb unfolding g_def a_def r_def gr_def by simp
qed

text \<open>On finite values the float functions are the real ones.\<close>

lemma clampf_ieee_finite:
  "clampf_ieee (Finite v) (Finite lo) (Finite hi) = Finite (clampf v lo hi)"
  by (simp add: clampf_ieee_def clampf_def)

lemma clampf_ieee_infinite:
  "lo \<le> hi \<Longrightarrow> clampf_ieee PosInf (Finite lo) (Finite hi) = Finite hi"
  "clampf_ieee NegInf (Finite lo) (Finite hi) = Finite lo"
  by (simp_all add: clampf_ieee_def)

lemma flt_nan_right: "\<not> flt x NaN"
  by (cases x) simp_all

lemma clampf_ieee_nan: "clampf_ieee NaN lo hi = NaN"
  by (simp add: clampf_ieee_def flt_nan_right)

lemma normalizeThresholds_ieee_finite:
  "normalizeThresholds_ieee (finiteThresholds th) = finiteThresholds (normalizeThresholds th)"
  by (simp add: normalizeThresholds_ieee_def normalizeThresholds_def finiteThresholds_def Let_def)

lemma applyGuardrails_ieee_finite:
  "applyGuardrails_ieee (finiteThresholds th) band = finiteThresholds (applyGuardrails th band)"
proof -
  let ?gr = "guardrailsForBand band"
  have "(finiteThresholds th)\<lparr>
          greenMax_ieee := clampf_ieee (greenMax_ieee (finiteThresholds th)) (Finite (gMin ?gr)) (Finite (gMax ?gr)),
          amberMax_ieee := clampf_ieee (amberMax_ieee (finiteThresholds th)) (Finite (aMin ?gr)) (Finite (aMax ?gr)),
          redWarnDb_ieee := clampf_ieee (redWarnDb_ieee (finiteThresholds th)) (Finite (rMin ?gr)) (Finite (rMax ?gr))\<rparr>
        = finiteThresholds (th\<lparr>greenMax := clampf (greenMax th) (gMin ?gr) (gMax ?gr),
                               amberMax := clampf (amberMax th) (aMin ?gr) (aMax ?gr),
                               redWarnDb := clampf (redWarnDb th) (rMin ?gr) (rMax ?gr)\<rparr>)"
    by (simp add: finiteThresholds_def clampf_ieee_finite)
  then show ?thesis
    by (simp add: applyGuardrails_ieee_def applyGuardrails_def Let_def
        normalizeThresholds_ieee_finite)
qed

text \<open>A field that is not NaN is clamped to a finite value inside the bounds.\<close>

lemma clampf_ieee_not_nan:
  assumes "x \<noteq> NaN" and "lo \<le> hi"
  shows "\<exists>v. clampf_ieee x (Finite lo) (Finite hi) = Finite v \<and> clampf v lo hi = v"
  using assms
  by (cases x) (auto simp: clampf_ieee_def clampf_def)

lemma applyGuardrails_ieee_not_nan:
  assumes "greenMax_ieee th \<noteq> NaN" and "amberMax_ieee th \<noteq> NaN" and "redWarnDb_ieee th \<noteq> NaN"
  shows "\<exists>th'. applyGuardrails_ieee th band = finiteThresholds (applyGuardrails th' band)"
proof -
  let ?gr = "guardrailsForBand band"
  note wf = guardrails_wellformed [of band]
  from clampf_ieee_not_nan [OF assms(1), of "gMin ?gr" "gMax ?gr"] wf obtain g where
    g: "clampf_ieee (greenMax_ieee th) (Finite (gMin ?gr)) (Finite (gMax ?gr)) = Finite g"
       "clampf g (gMin ?gr) (gMax ?gr) = g" by blast
  from clampf_ieee_not_nan [OF assms(2), of "aMin ?gr" "aMax ?gr"] wf obtain a where
    a: "clampf_ieee (amberMax_ieee th) (Finite (aMin ?gr)) (Finite (aMax ?gr)) = Finite a"
       "clampf a (aMin ?gr) (aMax ?gr) = a" by blast
  from clampf_ieee_not_nan [OF assms(3), of "rMin ?gr" "rMax ?gr"] wf obtain r where
    r: "clampf_ieee (redWarnDb_ieee th) (Finite (rMin ?gr)) (Finite (rMax ?gr)) = Finite r"
       "clampf r (rMin ?gr) (rMax ?gr) = r" by blast
  have clamped: "th\<lparr>greenMax_ieee := Finite g, amberMax_ieee := Finite a,
                     redWarnDb_ieee := Finite r\<rparr> = finiteThresholds (mkTh g a r)"
    by (simp add: finiteThresholds_def mkTh_def)
  have l: "applyGuardrails_ieee th band = normalizeThresholds_ieee (finiteThresholds (mkTh g a r))"
    by (simp add: applyGuardrails_ieee_def Let_def g(1) a(1) r(1) clamped)
  have same: "(mkTh g a r)\<lparr>greenMax := g, amberMax := a, redWarnDb := r\<rparr> = mkTh g a r"
    by (simp add: mkTh_def)
  have "applyGuardrails (mkTh g a r) band = normalizeThresholds (mkTh g a r)"
    unfolding applyGuardrails_def Let_def using g(2) a(2) r(2)
    by (simp add: mkTh_def)
  then have "applyGuardrails_ieee th band = finiteThresholds (applyGuardrails (mkTh g a r) band)"
    by (simp add: l normalizeThresholds_ieee_finite)
  then show ?thesis by blast
qed

text \<open>
  So on every triple without a NaN field the result of \<^verbatim>\<open>applyGuardrails\<close> has the gaps
  and lies inside the guardrails of the band; infinite fields are clamped like any other.
\<close>

lemma applyGuardrails_ieee_gap_and_bounds_without_nan:
  assumes "greenMax_ieee th \<noteq> NaN" and "amberMax_ieee th \<noteq> NaN" and "redWarnDb_ieee th \<noteq> NaN"
  shows "flt (greenMax_ieee (applyGuardrails_ieee th band))
             (fsub (amberMax_ieee (applyGuardrails_ieee th band)) (Finite 1))
     \<and> flt (amberMax_ieee (applyGuardrails_ieee th band))
             (fsub (redWarnDb_ieee (applyGuardrails_ieee th band)) (Finite 1))
     \<and> fle (Finite (gMin (guardrailsForBand band))) (greenMax_ieee (applyGuardrails_ieee th band))
     \<and> fle (greenMax_ieee (applyGuardrails_ieee th band)) (Finite (gMax (guardrailsForBand band)))
     \<and> fle (Finite (aMin (guardrailsForBand band))) (amberMax_ieee (applyGuardrails_ieee th band))
     \<and> fle (amberMax_ieee (applyGuardrails_ieee th band)) (Finite (aMax (guardrailsForBand band)))
     \<and> fle (Finite (rMin (guardrailsForBand band))) (redWarnDb_ieee (applyGuardrails_ieee th band))
     \<and> fle (redWarnDb_ieee (applyGuardrails_ieee th band)) (Finite (rMax (guardrailsForBand band)))"
proof -
  from applyGuardrails_ieee_not_nan [OF assms, of band] obtain th' where
    e: "applyGuardrails_ieee th band = finiteThresholds (applyGuardrails th' band)" by blast
  note b = applyGuardrails_gap_and_bounds [of th' band]
  show ?thesis
    unfolding e using b
    by (simp add: finiteThresholds_def fle_def fsub_def not_less)
qed


subsection \<open>Sticky hysteresis\<close>

lemma hys_pos: "0 < hysGA yb \<and> 0 < hysAD yb \<and> 0 < hysDR"
  by (simp add: hysGA_def hysAD_def hysDR_def HYS_GA_DEFAULT_def HYS_AD_DEFAULT_def
      HYS_DR_DEFAULT_def)

lemma hysteresis_fixed_stays:
  "applyStickyHysteresis th yb z dB = z \<Longrightarrow> iterateHysteresis n th yb z dB = z"
  by (induction n) simp_all

lemma iterateHysteresis_add:
  "iterateHysteresis (m + n) th yb z dB =
     iterateHysteresis n th yb (iterateHysteresis m th yb z dB) dB"
  by (induction m arbitrary: z) simp_all

lemma hysteresis_third_fixed:
  "applyStickyHysteresis th yb (iterateHysteresis 3 th yb z dB) dB
     = iterateHysteresis 3 th yb z dB"
  using hys_pos [of yb]
  by (cases z) (simp_all add: numeral_3_eq_3)

text \<open>
  C9. For every starting zone, every value and every threshold set, iterating
  \<open>applyStickyHysteresis\<close> at that value (each returned zone fed back as the current zone)
  reaches a fixed point within three applications: the fourth application gives the
  result of the third, so does every later one, and a zone that is returned for itself
  is returned by every further application.
\<close>

theorem hysteresis_settles_within_three:
  "iterateHysteresis 4 th yb z dB = iterateHysteresis 3 th yb z dB
   \<and> (\<forall>n \<ge> 3. iterateHysteresis n th yb z dB = iterateHysteresis 3 th yb z dB)
   \<and> (applyStickyHysteresis th yb z dB = z \<longrightarrow> (\<forall>n. iterateHysteresis n th yb z dB = z))"
proof -
  let ?z3 = "iterateHysteresis 3 th yb z dB"
  have fixed3: "applyStickyHysteresis th yb ?z3 dB = ?z3"
    by (rule hysteresis_third_fixed)
  have later: "iterateHysteresis n th yb z dB = ?z3" if "3 \<le> n" for n
  proof -
    from that obtain k where n: "n = 3 + k" using le_Suc_ex by blast
    show ?thesis
      unfolding n iterateHysteresis_add by (rule hysteresis_fixed_stays [OF fixed3])
  qed
  have "iterateHysteresis 4 th yb z dB = ?z3" by (rule later) simp
  moreover have "\<forall>n \<ge> 3. iterateHysteresis n th yb z dB = ?z3" using later by blast
  moreover have "applyStickyHysteresis th yb z dB = z \<longrightarrow> (\<forall>n. iterateHysteresis n th yb z dB = z)"
    using hysteresis_fixed_stays by blast
  ultimately show ?thesis by blast
qed

lemma Y2Y3_active: "bandActiveThresholds ''Y2Y3'' = mkTh 49 52 55"
  by (simp add: bandActiveThresholds_def applyGuardrails_def thresholdsForBand_def
      guardrailsForBand_def toUpperCase_def toupper_def Let_def mkTh_def mkGr_def clampf_def
      normalizeThresholds_def GAP_GA_def GAP_AR_def)

text \<open>
  The statement used at Y2Y3 thresholds: Red at 56 repeats and stays; from Green at 60 the
  fifth application gives the result of the third.
\<close>

theorem hysteresis_settles_witness:
  "applyStickyHysteresis (mkTh 49 52 55) ''Y2Y3'' Z_RED 56 = Z_RED
   \<and> (\<forall>n. iterateHysteresis n (mkTh 49 52 55) ''Y2Y3'' Z_RED 56 = Z_RED)
   \<and> (3::nat) \<le> 5
   \<and> iterateHysteresis 5 (mkTh 49 52 55) ''Y2Y3'' Z_GREEN 60
       = iterateHysteresis 3 (mkTh 49 52 55) ''Y2Y3'' Z_GREEN 60"
proof -
  have fixed: "applyStickyHysteresis (mkTh 49 52 55) ''Y2Y3'' Z_RED 56 = Z_RED"
    by (simp add: mkTh_def hysDR_def HYS_DR_DEFAULT_def)
  have le: "(3::nat) \<le> 5" by simp
  from hysteresis_settles_within_three [of "mkTh 49 52 55" "''Y2Y3''" Z_RED 56] fixed
  have a: "\<forall>n. iterateHysteresis n (mkTh 49 52 55) ''Y2Y3'' Z_RED 56 = Z_RED" by blast
  from hysteresis_settles_within_three [of "mkTh 49 52 55" "''Y2Y3''" Z_GREEN 60] le
  have b: "iterateHysteresis 5 (mkTh 49 52 55) ''Y2Y3'' Z_GREEN 60
       = iterateHysteresis 3 (mkTh 49 52 55) ''Y2Y3'' Z_GREEN 60" by blast
  from fixed a le b show ?thesis by blast
qed

text \<open>
  C4, as stated, fails: with the active thresholds of band Y2Y3, Green at 60 dB goes to
  Amber, and Amber at 60 dB goes on to Deep.
\<close>

theorem hysteresis_not_idempotent:
  "applyStickyHysteresis (bandActiveThresholds ''Y2Y3'') ''Y2Y3''
      (applyStickyHysteresis (bandActiveThresholds ''Y2Y3'') ''Y2Y3'' Z_GREEN 60) 60
   \<noteq> applyStickyHysteresis (bandActiveThresholds ''Y2Y3'') ''Y2Y3'' Z_GREEN 60"
  by (simp add: Y2Y3_active mkTh_def hysGA_def hysAD_def isSendClassroom_def
      HYS_GA_DEFAULT_def HYS_AD_DEFAULT_def)

text \<open>
  C4, amended. \<open>applyStickyHysteresis\<close> moves at most one zone per application (the
  returned zone is the current one or a neighbour of it), and a second application at the
  same value returns the zone of the first whenever the value does not lie beyond the
  following boundary as well: from Green at most \<open>amberMax + hysAD\<close>, from Amber at most
  \<open>redWarnDb + hysDR\<close>, from Deep at least \<open>greenMax - hysGA\<close>, from Red at least
  \<open>amberMax - hysAD\<close>.
\<close>

theorem hysteresis_idempotent_within_one_zone:
  "zoneIndex (applyStickyHysteresis th yb z dB) \<le> zoneIndex z + 1
   \<and> zoneIndex z \<le> zoneIndex (applyStickyHysteresis th yb z dB) + 1
   \<and> ((case z of
          Z_GREEN \<Rightarrow> dB \<le> amberMax th + hysAD yb
        | Z_AMBER \<Rightarrow> dB \<le> redWarnDb th + hysDR
        | Z_DEEP \<Rightarrow> greenMax th - hysGA yb \<le> dB
        | Z_RED \<Rightarrow> amberMax th - hysAD yb \<le> dB)
        \<longrightarrow> applyStickyHysteresis th yb (applyStickyHysteresis th yb z dB) dB
              = applyStickyHysteresis th yb z dB)"
proof -
  have step: "zoneIndex (applyStickyHysteresis th yb z dB) \<le> zoneIndex z + 1
      \<and> zoneIndex z \<le> zoneIndex (applyStickyHysteresis th yb z dB) + 1"
    by (cases z) simp_all
  have idem: "applyStickyHysteresis th yb (applyStickyHysteresis th yb z dB) dB
              = applyStickyHysteresis th yb z dB"
    if "case z of
          Z_GREEN \<Rightarrow> dB \<le> amberMax th + hysAD yb
        | Z_AMBER \<Rightarrow> dB \<le> redWarnDb th + hysDR
        | Z_DEEP \<Rightarrow> greenMax th - hysGA yb \<le> dB
        | Z_RED \<Rightarrow> amberMax th - hysAD yb \<le> dB"
    using that hys_pos [of yb] by (cases z) simp_all
  from step idem show ?thesis by blast
qed

text \<open>
  The amended statement used at Green and 50 dB, one zone away: the first application
  moves to Amber, one zone up, and the second stays there.
\<close>

theorem hysteresis_idempotent_witness:
  "(case Z_GREEN of
      Z_GREEN \<Rightarrow> (50::real) \<le> amberMax (mkTh 49 52 55) + hysAD ''Y2Y3''
    | Z_AMBER \<Rightarrow> 50 \<le> redWarnDb (mkTh 49 52 55) + hysDR
    | Z_DEEP \<Rightarrow> greenMax (mkTh 49 52 55) - hysGA ''Y2Y3'' \<le> 50
    | Z_RED \<Rightarrow> amberMax (mkTh 49 52 55) - hysAD ''Y2Y3'' \<le> 50)
   \<and> applyStickyHysteresis (mkTh 49 52 55) ''Y2Y3'' Z_GREEN 50 = Z_AMBER
   \<and> zoneIndex (applyStickyHysteresis (mkTh 49 52 55) ''Y2Y3'' Z_GREEN 50)
        \<le> zoneIndex Z_GREEN + 1
   \<and> applyStickyHysteresis (mkTh 49 52 55) ''Y2Y3''
        (applyStickyHysteresis (mkTh 49 52 55) ''Y2Y3'' Z_GREEN 50) 50 = Z_AMBER"
proof -
  have h: "case Z_GREEN of
      Z_GREEN \<Rightarrow> (50::real) \<le> amberMax (mkTh 49 52 55) + hysAD ''Y2Y3''
    | Z_AMBER \<Rightarrow> 50 \<le> redWarnDb (mkTh 49 52 55) + hysDR
    | Z_DEEP \<Rightarrow> greenMax (mkTh 49 52 55) - hysGA ''Y2Y3'' \<le> 50
    | Z_RED \<Rightarrow> amberMax (mkTh 49 52 55) - hysAD ''Y2Y3'' \<le> 50"
    by (simp add: mkTh_def hysAD_def isSendClassroom_def HYS_AD_DEFAULT_def)
  have first: "applyStickyHysteresis (mkTh 49 52 55) ''Y2Y3'' Z_GREEN 50 = Z_AMBER"
    by (simp add: mkTh_def hysGA_def isSendClassroom_def HYS_GA_DEFAULT_def)
  note t = hysteresis_idempotent_within_one_zone [of "mkTh 49 52 55" "''Y2Y3''" Z_GREEN 50]
  from t h have second: "applyStickyHysteresis (mkTh 49 52 55) ''Y2Y3''
        (applyStickyHysteresis (mkTh 49 52 55) ''Y2Y3'' Z_GREEN 50) 50
      = applyStickyHysteresis (mkTh 49 52 55) ''Y2Y3'' Z_GREEN 50" by blast
  from t have one: "zoneIndex (applyStickyHysteresis (mkTh 49 52 55) ''Y2Y3'' Z_GREEN 50)
        \<le> zoneIndex Z_GREEN + 1" by blast
  from h first one second show ?thesis by simp
qed


subsection \<open>Timetable windows\<close>

text \<open>
  C8. When the timetable is in use, \<open>getWindowState\<close> returns Off on weekday 6 (Saturday) at
  every hour and minute, whatever the six configured times are (so also when they fall
  back to the built-in timetable); with the always-on override (\<open>useTimetable\<close> false) it
  returns Lesson for every weekday, hour and minute.
\<close>

theorem getWindowState_saturday_and_always_on:
  "(useTimetable tt \<longrightarrow> getWindowState tt 6 h m = OFF)
   \<and> (\<not> useTimetable tt \<longrightarrow> getWindowState tt wday h m = LESSON)"
  by (simp add: getWindowState_def TIMETABLE_ENABLED_def)

text \<open>
  The statement used at the sketch's own timetable on Saturday 09:00, and at the same
  timetable with the override on Wednesday 21:30.
\<close>

theorem getWindowState_witness:
  "useTimetable default_timetable
   \<and> getWindowState default_timetable 6 9 0 = OFF
   \<and> \<not> useTimetable (default_timetable\<lparr>useTimetable := False\<rparr>)
   \<and> getWindowState (default_timetable\<lparr>useTimetable := False\<rparr>) 3 21 30 = LESSON"
proof -
  have on: "useTimetable default_timetable" by (simp add: default_timetable_def)
  have off: "\<not> useTimetable (default_timetable\<lparr>useTimetable := False\<rparr>)" by simp
  from getWindowState_saturday_and_always_on [where tt = default_timetable and h = 9 and m = 0] on
  have a: "getWindowState default_timetable 6 9 0 = OFF" by blast
  from getWindowState_saturday_and_always_on
         [where tt = "default_timetable\<lparr>useTimetable := False\<rparr>" and wday = 3 and h = 21 and m = 30] off
  have b: "getWindowState (default_timetable\<lparr>useTimetable := False\<rparr>) 3 21 30 = LESSON"
    by blast
  from on a off b show ?thesis by blast
qed

subsection \<open>Calibration statistics\<close>

text \<open>
  C10. \<open>updateRoomCalibration\<close> does nothing on an argument that is not finite: for NaN and
  for either infinity the whole calibration state, and so each of \<open>calCount\<close>, \<open>calMean\<close>,
  \<open>calM2\<close>, \<open>calMinDb\<close> and \<open>calMaxDb\<close>, is returned unchanged.
\<close>

theorem updateRoomCalibration_nonfinite_noop:
  "\<not> isfinite avg \<Longrightarrow> updateRoomCalibration avg s = s"
  by (simp add: updateRoomCalibration_def)

text \<open>The statement used at NaN and at plus infinity, on the initial statistics.\<close>

theorem updateRoomCalibration_nonfinite_witness:
  "\<not> isfinite NaN \<and> updateRoomCalibration NaN initial_cal_state = initial_cal_state
   \<and> \<not> isfinite PosInf \<and> updateRoomCalibration PosInf initial_cal_state = initial_cal_state"
  using updateRoomCalibration_nonfinite_noop [of NaN initial_cal_state]
    updateRoomCalibration_nonfinite_noop [of PosInf initial_cal_state]
  by simp

lemma feedSamples_snoc:
  "feedSamples (xs @ [x]) s = updateRoomCalibration x (feedSamples xs s)"
  by (induction xs arbitrary: s) simp_all

lemma unat_count_succ:
  fixes n :: nat
  assumes "Suc n < 2 ^ 32"
  shows "unat ((of_nat n :: 32 word) + 1) = Suc n"
proof -
  have "(of_nat n :: 32 word) + 1 = of_nat (Suc n)" by simp
  moreover have "unat (of_nat (Suc n) :: 32 word) = Suc n"
    using assms unfolding unat_of_nat by simp
  ultimately show ?thesis by (simp only:)
qed

text \<open>One Welford step on the mean and on the sum of squared deviations, in closed form.\<close>

lemma welford_step_mean_real:
  fixes S x r :: real
  assumes "0 < r"
  shows "S / r + (x - S / r) / (r + 1) = (S + x) / (r + 1)"
proof -
  have nz: "r \<noteq> 0" "r + 1 \<noteq> 0" using assms by simp_all
  have a: "x - S / r = (r * x - S) / r" using nz by (simp add: field_simps)
  have d: "S / r = S * (r + 1) / (r * (r + 1))" using nz by simp
  have "S / r + (x - S / r) / (r + 1) = (S * (r + 1) + (r * x - S)) / (r * (r + 1))"
    unfolding a by (subst d) (simp add: add_divide_distrib)
  also have "S * (r + 1) + (r * x - S) = (S + x) * r" by (simp add: algebra_simps)
  also have "(S + x) * r / (r * (r + 1)) = (S + x) / (r + 1)" using nz by simp
  finally show ?thesis .
qed

lemma welford_step_m2_real:
  fixes S Q x r :: real
  assumes "0 < r"
  shows "Q - S\<^sup>2 / r + (x - S / r) * (x - (S + x) / (r + 1))
           = Q + x\<^sup>2 - (S + x)\<^sup>2 / (r + 1)"
proof -
  have nz: "r \<noteq> 0" "r + 1 \<noteq> 0" using assms by simp_all
  have a: "x - S / r = (r * x - S) / r" using nz by (simp add: field_simps)
  have b: "x - (S + x) / (r + 1) = (r * x - S) / (r + 1)" using nz by (simp add: field_simps)
  have c: "(x - S / r) * (x - (S + x) / (r + 1)) = (r * x - S)\<^sup>2 / (r * (r + 1))"
    unfolding a b by (simp add: power2_eq_square)
  have d: "S\<^sup>2 / r = S\<^sup>2 * (r + 1) / (r * (r + 1))" using nz by simp
  have e: "(S + x)\<^sup>2 / (r + 1) = (S + x)\<^sup>2 * r / (r * (r + 1))" using nz by simp
  have f: "x\<^sup>2 = x\<^sup>2 * (r * (r + 1)) / (r * (r + 1))" using nz by simp
  have g: "(r * x - S)\<^sup>2 - S\<^sup>2 * (r + 1) = x\<^sup>2 * (r * (r + 1)) - (S + x)\<^sup>2 * r"
    by (simp add: algebra_simps power2_eq_square)
  have "(r * x - S)\<^sup>2 / (r * (r + 1)) - S\<^sup>2 / r
          = ((r * x - S)\<^sup>2 - S\<^sup>2 * (r + 1)) / (r * (r + 1))"
    by (subst d) (simp add: diff_divide_distrib)
  also have "\<dots> = (x\<^sup>2 * (r * (r + 1)) - (S + x)\<^sup>2 * r) / (r * (r + 1))"
    by (simp only: g)
  also have "\<dots> = x\<^sup>2 - (S + x)\<^sup>2 / (r + 1)"
    by (subst e, subst f) (simp only: diff_divide_distrib)
  finally have "(r * x - S)\<^sup>2 / (r * (r + 1)) - S\<^sup>2 / r = x\<^sup>2 - (S + x)\<^sup>2 / (r + 1)" .
  then show ?thesis unfolding c by simp
qed


lemma updateRoomCalibration_finite_fields:
  "calCount (updateRoomCalibration (Finite x) s) = calCount s + 1"
  "calMean (updateRoomCalibration (Finite x) s)
     = calMean s + (x - calMean s) / real (unat (calCount s + 1))"
  "calM2 (updateRoomCalibration (Finite x) s)
     = calM2 s + (x - calMean s)
         * (x - (calMean s + (x - calMean s) / real (unat (calCount s + 1))))"
  by (simp_all add: updateRoomCalibration_def Let_def)

lemma welford_invariant:
  assumes "length xs < 2 ^ 32"
    and "calCount st = 0" and "calMean st = 0" and "calM2 st = 0"
  shows "calCount (feedSamples (map Finite xs) st) = of_nat (length xs)
     \<and> (xs = [] \<longrightarrow> calMean (feedSamples (map Finite xs) st) = 0
                     \<and> calM2 (feedSamples (map Finite xs) st) = 0)
     \<and> (xs \<noteq> [] \<longrightarrow>
           calMean (feedSamples (map Finite xs) st) = sum_list xs / real (length xs)
         \<and> calM2 (feedSamples (map Finite xs) st)
             = (\<Sum>x\<leftarrow>xs. x\<^sup>2) - (sum_list xs)\<^sup>2 / real (length xs))"
  using assms(1)
proof (induction xs rule: rev_induct)
  case Nil
  show ?case using assms(2-4) by simp
next
  case (snoc x xs)
  let ?s = "feedSamples (map Finite xs) st"
  let ?n = "length xs"
  have len: "Suc ?n < 2 ^ 32" using snoc.prems by simp
  then have "length xs < 2 ^ 32" by simp
  note IH = snoc.IH [OF this]
  have cnt: "calCount ?s = of_nat ?n" using IH by blast
  have un: "unat (calCount ?s + 1) = Suc ?n"
    unfolding cnt by (rule unat_count_succ [OF len])
  have step: "feedSamples (map Finite (xs @ [x])) st = updateRoomCalibration (Finite x) ?s"
    by (simp add: feedSamples_snoc)
  have c': "calCount (feedSamples (map Finite (xs @ [x])) st) = of_nat (length (xs @ [x]))"
    unfolding step updateRoomCalibration_finite_fields cnt by simp
  have m': "calMean (feedSamples (map Finite (xs @ [x])) st)
              = sum_list (xs @ [x]) / real (length (xs @ [x]))"
   and q': "calM2 (feedSamples (map Finite (xs @ [x])) st)
              = (\<Sum>y\<leftarrow>xs @ [x]. y\<^sup>2) - (sum_list (xs @ [x]))\<^sup>2 / real (length (xs @ [x]))"
  proof -
    show "calMean (feedSamples (map Finite (xs @ [x])) st)
              = sum_list (xs @ [x]) / real (length (xs @ [x]))"
    proof (cases "xs = []")
      case True
      then have "calMean ?s = 0" using IH by blast
      then show ?thesis
        unfolding step updateRoomCalibration_finite_fields un using True by simp
    next
      case False
      then have mean: "calMean ?s = sum_list xs / real ?n" using IH by blast
      have pos: "0 < real ?n" using False by simp
      have "calMean ?s + (x - calMean ?s) / (real ?n + 1) = (sum_list xs + x) / (real ?n + 1)"
        unfolding mean by (rule welford_step_mean_real [OF pos])
      then show ?thesis
        unfolding step updateRoomCalibration_finite_fields un by (simp add: add.commute)
    qed
    show "calM2 (feedSamples (map Finite (xs @ [x])) st)
              = (\<Sum>y\<leftarrow>xs @ [x]. y\<^sup>2) - (sum_list (xs @ [x]))\<^sup>2 / real (length (xs @ [x]))"
    proof (cases "xs = []")
      case True
      then have "calMean ?s = 0" "calM2 ?s = 0" using IH by blast+
      then show ?thesis
        unfolding step updateRoomCalibration_finite_fields un using True by simp
    next
      case False
      then have mean: "calMean ?s = sum_list xs / real ?n"
        and m2: "calM2 ?s = (\<Sum>y\<leftarrow>xs. y\<^sup>2) - (sum_list xs)\<^sup>2 / real ?n"
        using IH by blast+
      have pos: "0 < real ?n" using False by simp
      have mstep: "calMean ?s + (x - calMean ?s) / (real ?n + 1) = (sum_list xs + x) / (real ?n + 1)"
        unfolding mean by (rule welford_step_mean_real [OF pos])
      have "calM2 ?s + (x - calMean ?s) * (x - (calMean ?s + (x - calMean ?s) / (real ?n + 1)))
              = (\<Sum>y\<leftarrow>xs. y\<^sup>2) + x\<^sup>2 - (sum_list xs + x)\<^sup>2 / (real ?n + 1)"
        unfolding mstep unfolding mean m2 by (rule welford_step_m2_real [OF pos])
      then show ?thesis
        unfolding step updateRoomCalibration_finite_fields un by (simp add: add.commute)
    qed
  qed
  from c' m' q' show ?case by simp
qed

lemma sum_sq_dev_expand:
  fixes c :: real
  shows "(\<Sum>x\<leftarrow>xs. (x - c)\<^sup>2) = (\<Sum>x\<leftarrow>xs. x\<^sup>2) - 2 * c * sum_list xs + real (length xs) * c\<^sup>2"
  by (induction xs) (simp_all add: algebra_simps power2_eq_square)

lemma sq_dev_sum_closed:
  assumes "xs \<noteq> []"
  shows "sq_dev_sum xs = (\<Sum>x\<leftarrow>xs. x\<^sup>2) - (sum_list xs)\<^sup>2 / real (length xs)"
proof -
  have n: "real (length xs) \<noteq> 0" using assms by simp
  have t1: "real (length xs) * (sum_list xs / real (length xs))\<^sup>2
              = (sum_list xs)\<^sup>2 / real (length xs)"
    using n by (simp add: power2_eq_square)
  have t2: "2 * (sum_list xs / real (length xs)) * sum_list xs
              = 2 * ((sum_list xs)\<^sup>2 / real (length xs))"
    by (simp add: power2_eq_square)
  have "sq_dev_sum xs = (\<Sum>x\<leftarrow>xs. x\<^sup>2)
          - 2 * (sum_list xs / real (length xs)) * sum_list xs
          + real (length xs) * (sum_list xs / real (length xs))\<^sup>2"
    unfolding sq_dev_sum_def arith_mean_def by (rule sum_sq_dev_expand)
  also have "\<dots> = (\<Sum>x\<leftarrow>xs. x\<^sup>2) - (sum_list xs)\<^sup>2 / real (length xs)"
    unfolding t1 t2 by simp
  finally show ?thesis .
qed

lemma resetRoomCalibration_stats:
  "calCount (resetRoomCalibration now s) = 0"
  "calMean (resetRoomCalibration now s) = 0"
  "calM2 (resetRoomCalibration now s) = 0"
  by (simp_all add: resetRoomCalibration_def)

text \<open>
  C5. For every non-empty sequence of finite samples (shorter than \<open>2 ^ 32\<close>, the range of
  the 32-bit counter) fed in order to \<open>updateRoomCalibration\<close>, starting from the statistics
  that \<open>resetRoomCalibration\<close> leaves, \<open>calCount\<close> is the number of samples, \<open>calMean\<close> is
  their arithmetic mean, \<open>calM2\<close> is the sum of their squared deviations from the mean,
  and for two samples or more \<open>calM2 / (calCount - 1)\<close> is their unbiased sample variance.
  Arithmetic is exact (reals), not rounded.
\<close>

theorem welford_mean_and_variance:
  assumes "xs \<noteq> []" and "length xs < 2 ^ 32"
  shows "unat (calCount (feedSamples (map Finite xs) (resetRoomCalibration now st))) = length xs
     \<and> calMean (feedSamples (map Finite xs) (resetRoomCalibration now st)) = arith_mean xs
     \<and> calM2 (feedSamples (map Finite xs) (resetRoomCalibration now st)) = sq_dev_sum xs
     \<and> (2 \<le> length xs \<longrightarrow>
          calM2 (feedSamples (map Finite xs) (resetRoomCalibration now st))
            / real (unat (calCount (feedSamples (map Finite xs) (resetRoomCalibration now st)) - 1))
          = sample_variance xs)"
proof -
  let ?s = "feedSamples (map Finite xs) (resetRoomCalibration now st)"
  note inv = welford_invariant [OF assms(2), where st = "resetRoomCalibration now st",
      OF resetRoomCalibration_stats]
  have cnt: "calCount ?s = of_nat (length xs)" using inv by blast
  have un: "unat (calCount ?s) = length xs"
    unfolding cnt unat_of_nat using assms(2) by simp
  have mean: "calMean ?s = arith_mean xs"
    using inv assms(1) by (simp add: arith_mean_def)
  have m2: "calM2 ?s = sq_dev_sum xs"
    using inv assms(1) by (simp add: sq_dev_sum_closed)
  have var: "calM2 ?s / real (unat (calCount ?s - 1)) = sample_variance xs" if "2 \<le> length xs"
  proof -
    have "calCount ?s \<noteq> 0" using un assms(1) by (metis length_0_conv unat_0)
    then have "unat (calCount ?s - 1) = length xs - 1"
      using un by (simp add: unat_minus_one)
    moreover have "real (length xs - 1) = real (length xs) - 1" using that by simp
    ultimately show ?thesis by (simp add: m2 sample_variance_def)
  qed
  from un mean m2 var show ?thesis by blast
qed

text \<open>The statement used at the eight samples 2, 4, 4, 4, 5, 5, 7, 9: mean 5, variance 32/7.\<close>

theorem welford_witness:
  "[2, 4, 4, 4, 5, 5, 7, 9 :: real] \<noteq> []
   \<and> length [2, 4, 4, 4, 5, 5, 7, 9 :: real] < 2 ^ 32
   \<and> 2 \<le> length [2, 4, 4, 4, 5, 5, 7, 9 :: real]
   \<and> calMean (feedSamples (map Finite [2, 4, 4, 4, 5, 5, 7, 9])
                (resetRoomCalibration 1700000001 initial_cal_state)) = 5
   \<and> calM2 (feedSamples (map Finite [2, 4, 4, 4, 5, 5, 7, 9])
                (resetRoomCalibration 1700000001 initial_cal_state)) = 32
   \<and> calM2 (feedSamples (map Finite [2, 4, 4, 4, 5, 5, 7, 9])
                (resetRoomCalibration 1700000001 initial_cal_state))
       / real (unat (calCount (feedSamples (map Finite [2, 4, 4, 4, 5, 5, 7, 9])
                (resetRoomCalibration 1700000001 initial_cal_state)) - 1)) = 32 / 7"
proof -
  have ne: "[2, 4, 4, 4, 5, 5, 7, 9 :: real] \<noteq> []" by simp
  have len: "length [2, 4, 4, 4, 5, 5, 7, 9 :: real] < 2 ^ 32" by simp
  have two: "2 \<le> length [2, 4, 4, 4, 5, 5, 7, 9 :: real]" by simp
  have mean: "arith_mean [2, 4, 4, 4, 5, 5, 7, 9] = 5" by (simp add: arith_mean_def)
  have dev: "sq_dev_sum [2, 4, 4, 4, 5, 5, 7, 9] = 32" by (simp add: sq_dev_sum_def mean)
  have var: "sample_variance [2, 4, 4, 4, 5, 5, 7, 9] = 32 / 7"
    by (simp add: sample_variance_def dev)
  from welford_mean_and_variance [OF ne len, of 1700000001 initial_cal_state] two
  show ?thesis unfolding mean dev var using ne len by blast
qed


subsection \<open>Finalising the calibration\<close>

lemma count_ge_60:
  fixes c :: "32 word"
  assumes "\<not> c < 60"
  shows "1 < c" and "real (unat (c - 1)) = real (unat c) - 1" and "0 < real (unat c) - 1"
proof -
  have u: "60 \<le> unat c" using assms by (simp add: word_less_nat_alt)
  then have nz: "c \<noteq> 0" by auto
  have "unat (1 :: 32 word) < unat c" using u by simp
  then show "1 < c" by (simp only: word_less_nat_alt)
  have "unat (c - 1) = unat c - 1" by (rule unat_minus_one [OF nz])
  have r: "real 60 \<le> real (unat c)" using u by (rule of_nat_mono)
  have "real (unat c - 1) = real (unat c) - 1" using u by (simp add: of_nat_diff)
  then show "real (unat (c - 1)) = real (unat c) - 1"
    using \<open>unat (c - 1) = unat c - 1\<close> by (simp only:)
  show "0 < real (unat c) - 1" using r by simp
qed

lemma computeCalibratedThresholdsFromStats_closed:
  assumes "0 \<le> calM2 s"
  shows "computeCalibratedThresholdsFromStats band s =
     applyGuardrails
       (if calCount s < 60 then thresholdsForBand band
        else if sqrt (calM2 s / (real (unat (calCount s)) - 1)) < 1
        then mkTh (calMean s + 1) (calMean s + 3) (calMean s + 6)
        else mkTh (calMean s + 0.90 * sqrt (calM2 s / (real (unat (calCount s)) - 1)))
                  (calMean s + 1.60 * sqrt (calM2 s / (real (unat (calCount s)) - 1)))
                  (calMean s + 2.40 * sqrt (calM2 s / (real (unat (calCount s)) - 1))))
       band"
proof (cases "calCount s < 60")
  case True
  then show ?thesis by (simp add: computeCalibratedThresholdsFromStats_def)
next
  case False
  note c = count_ge_60 [OF False]
  have nonneg: "\<not> calM2 s / (real (unat (calCount s)) - 1) < 0"
    using assms c(3) by (simp add: not_less)
  show ?thesis
    unfolding computeCalibratedThresholdsFromStats_def Let_def c(2)
    using False c(1) nonneg by simp
qed

text \<open>
  C3. When finalisation is due (calibration enabled and not complete, both clock values
  valid, elapsed time not below the learning duration), \<open>finalizeRoomCalibrationIfDue\<close>
  marks calibration complete and sets both \<open>CAL_TH\<close> and \<open>ACTIVE_TH\<close> to the result of
  \<open>applyGuardrails\<close> on: the band default if fewer than 60 samples were taken; otherwise
  \<open>(mean + 0.90 \<sigma>, mean + 1.60 \<sigma>, mean + 2.40 \<sigma>)\<close> with
  \<open>\<sigma> = sqrt (calM2 / (calCount - 1))\<close>, or \<open>(mean + 1, mean + 3, mean + 6)\<close> if \<open>\<sigma> < 1\<close>.
  \<open>calM2\<close> is a sum of squares, so it is taken to be non-negative.
\<close>

theorem finalize_derives_guarded_thresholds:
  assumes "roomCalEnabled s" and "\<not> roomCalComplete s"
    and "hasValidTime nowEpoch" and "hasValidTime (roomCalStartEpoch s)"
    and "ROOM_CAL_SECONDS \<le> (word_of_int (nowEpoch - roomCalStartEpoch s) :: 32 word)"
    and "0 \<le> calM2 s"
  shows "roomCalComplete (finalizeRoomCalibrationIfDue nowEpoch s)
     \<and> CAL_TH (finalizeRoomCalibrationIfDue nowEpoch s) =
         applyGuardrails
           (if calCount s < 60 then thresholdsForBand (Some (yearBand s))
            else if sqrt (calM2 s / (real (unat (calCount s)) - 1)) < 1
            then mkTh (calMean s + 1) (calMean s + 3) (calMean s + 6)
            else mkTh (calMean s + 0.90 * sqrt (calM2 s / (real (unat (calCount s)) - 1)))
                      (calMean s + 1.60 * sqrt (calM2 s / (real (unat (calCount s)) - 1)))
                      (calMean s + 2.40 * sqrt (calM2 s / (real (unat (calCount s)) - 1))))
           (Some (yearBand s))
     \<and> ACTIVE_TH (finalizeRoomCalibrationIfDue nowEpoch s)
         = CAL_TH (finalizeRoomCalibrationIfDue nowEpoch s)"
proof -
  have due: "\<not> (word_of_int (nowEpoch - roomCalStartEpoch s) :: 32 word) < ROOM_CAL_SECONDS"
    using assms(5) by (simp add: not_less)
  have fin: "finalizeRoomCalibrationIfDue nowEpoch s =
      s\<lparr>CAL_TH := computeCalibratedThresholdsFromStats (Some (yearBand s)) s,
        roomCalComplete := True,
        ACTIVE_TH := computeCalibratedThresholdsFromStats (Some (yearBand s)) s\<rparr>"
    using assms(1-4) due by (simp add: finalizeRoomCalibrationIfDue_def Let_def)
  show ?thesis
    unfolding fin computeCalibratedThresholdsFromStats_closed [OF assms(6)] by simp
qed

text \<open>
  The statement used at 100 samples with mean 45 and \<open>calM2 = 396\<close> (so \<open>\<sigma> = 2\<close>) in band
  Y2Y3, exactly five days after the start: the derived (46.8, 48.2, 49.8) is widened by the
  gap normalisation to (46.8, 48.8, 50.8).
\<close>

theorem finalize_witness:
  "roomCalEnabled (initial_cal_state\<lparr>roomCalEnabled := True, roomCalStartEpoch := 1700000001,
                     calCount := 100, calMean := 45, calM2 := 396\<rparr>)
   \<and> hasValidTime 1700432001 \<and> hasValidTime 1700000001
   \<and> ROOM_CAL_SECONDS \<le> (word_of_int (1700432001 - 1700000001) :: 32 word)
   \<and> CAL_TH (finalizeRoomCalibrationIfDue 1700432001
         (initial_cal_state\<lparr>roomCalEnabled := True, roomCalStartEpoch := 1700000001,
                     calCount := 100, calMean := 45, calM2 := 396\<rparr>))
       = mkTh 46.8 48.8 50.8
   \<and> ACTIVE_TH (finalizeRoomCalibrationIfDue 1700432001
         (initial_cal_state\<lparr>roomCalEnabled := True, roomCalStartEpoch := 1700000001,
                     calCount := 100, calMean := 45, calM2 := 396\<rparr>))
       = mkTh 46.8 48.8 50.8"
proof -
  let ?s = "initial_cal_state\<lparr>roomCalEnabled := True, roomCalStartEpoch := 1700000001,
                     calCount := 100, calMean := 45, calM2 := 396\<rparr>"
  have h1: "roomCalEnabled ?s" by simp
  have h2: "\<not> roomCalComplete ?s" by (simp add: initial_cal_state_def)
  have h3: "hasValidTime 1700432001" by (simp add: hasValidTime_def)
  have h4: "hasValidTime (roomCalStartEpoch ?s)" by (simp add: hasValidTime_def)
  have h5: "ROOM_CAL_SECONDS \<le> (word_of_int (1700432001 - roomCalStartEpoch ?s) :: 32 word)"
    by (simp add: ROOM_CAL_SECONDS_def ROOM_CAL_DAYS_def)
  have h6: "0 \<le> calM2 ?s" by simp
  have sd: "sqrt (calM2 ?s / (real (unat (calCount ?s)) - 1)) = 2"
  proof -
    have e: "calM2 ?s / (real (unat (calCount ?s)) - 1) = 4" by simp
    show ?thesis unfolding e by (rule real_sqrt_four)
  qed
  have yb: "yearBand ?s = ''Y2Y3''" by (simp add: initial_cal_state_def)
  have g: "applyGuardrails (mkTh (45 + 0.90 * 2) (45 + 1.60 * 2) (45 + 2.40 * 2)) (Some ''Y2Y3'')
             = mkTh 46.8 48.8 50.8"
    by (simp add: applyGuardrails_def guardrailsForBand_def toUpperCase_def toupper_def Let_def
        mkTh_def mkGr_def clampf_def normalizeThresholds_def GAP_GA_def GAP_AR_def)
  have r: "CAL_TH (finalizeRoomCalibrationIfDue 1700432001 ?s) = mkTh 46.8 48.8 50.8
         \<and> ACTIVE_TH (finalizeRoomCalibrationIfDue 1700432001 ?s)
             = CAL_TH (finalizeRoomCalibrationIfDue 1700432001 ?s)"
    using finalize_derives_guarded_thresholds [OF h1 h2 h3 h4 h5 h6]
    unfolding sd yb using g by simp
  from h1 h3 h4 h5 r show ?thesis by (simp add: hasValidTime_def)
qed

subsection \<open>Quiet reward\<close>

lemma lessonTransition_fields:
  "needsResetAboveGood (lessonTransition t s) = needsResetAboveGood s"
  "rewardShowing (lessonTransition t s) = rewardShowing s"
  "rewardStartMs (lessonTransition t s) = rewardStartMs s"
  "rewardCooldownUntilMs (lessonTransition t s) = rewardCooldownUntilMs s"
  "penaltyUntilMs (lessonTransition t s) = penaltyUntilMs s"
  "lastWs (lessonTransition t s) = ws t"
  by (simp_all add: lessonTransition_def Let_def)

lemma lessonTransition_in_lesson:
  "lastWs s = LESSON \<Longrightarrow> ws t = LESSON \<Longrightarrow> lessonTransition t s = s"
  by (simp add: lessonTransition_def Let_def)

lemma sleepDetection_fields:
  "needsResetAboveGood (sleepDetection t s) = needsResetAboveGood s"
  "rewardShowing (sleepDetection t s) = rewardShowing s"
  "rewardStartMs (sleepDetection t s) = rewardStartMs s"
  "rewardCooldownUntilMs (sleepDetection t s) = rewardCooldownUntilMs s"
  "penaltyUntilMs (sleepDetection t s) = penaltyUntilMs s"
  "quietStartMs (sleepDetection t s) = quietStartMs s"
  "lessonStartMs (sleepDetection t s) = lessonStartMs s"
  "lastWs (sleepDetection t s) = lastWs s"
  by (simp_all add: sleepDetection_def Let_def)

lemma sleepDetection_awake:
  "WAKE_DB_THRESHOLD \<le> avgDB t \<Longrightarrow> \<not> inSleepMode (sleepDetection t s)"
  by (simp add: sleepDetection_def Let_def)

lemma rewardDisplay_fields:
  "needsResetAboveGood (fst (rewardDisplay t s)) = needsResetAboveGood s"
  "rewardCooldownUntilMs (fst (rewardDisplay t s)) = rewardCooldownUntilMs s"
  "penaltyUntilMs (fst (rewardDisplay t s)) = penaltyUntilMs s"
  "lessonStartMs (fst (rewardDisplay t s)) = lessonStartMs s"
  "lastWs (fst (rewardDisplay t s)) = lastWs s"
  by (simp_all add: rewardDisplay_def)

lemma rewardLogExpiry_fields:
  "needsResetAboveGood (rewardLogExpiry t s) = needsResetAboveGood s"
  "rewardShowing (rewardLogExpiry t s) = rewardShowing s"
  "rewardStartMs (rewardLogExpiry t s) = rewardStartMs s"
  "rewardCooldownUntilMs (rewardLogExpiry t s) = rewardCooldownUntilMs s"
  "penaltyUntilMs (rewardLogExpiry t s) = penaltyUntilMs s"
  "quietStartMs (rewardLogExpiry t s) = quietStartMs s"
  "lessonStartMs (rewardLogExpiry t s) = lessonStartMs s"
  "lastWs (rewardLogExpiry t s) = lastWs s"
  by (simp_all add: rewardLogExpiry_def)

text \<open>The reward block, branch by branch.\<close>

lemma rewardLogic_skipped:
  "rewardShowing s \<or> deviceMode t \<noteq> MODE_NORMAL \<Longrightarrow> rewardLogic t s = (s, False)"
  by (auto simp: rewardLogic_def)

lemma rewardLogic_gate:
  assumes "\<not> rewardShowing s" and "deviceMode t = MODE_NORMAL"
    and "nowMs t - lessonStartMs s < MIN_LESSON_BEFORE_REWARD_MS"
  shows "rewardLogic t s = (s\<lparr>quietStartMs := 0\<rparr>, False)"
  using assms by (simp add: rewardLogic_def Let_def)

lemma rewardLogic_spike:
  assumes "\<not> rewardShowing s" and "deviceMode t = MODE_NORMAL"
    and "\<not> nowMs t - lessonStartMs s < MIN_LESSON_BEFORE_REWARD_MS"
    and "greenMax (activeTh t) + REWARD_SPIKE_MARGIN_DB \<le> avgDB t"
  shows "rewardLogic t s =
           (s\<lparr>penaltyUntilMs := nowMs t + SPIKE_PENALTY_MS, quietStartMs := 0,
              needsResetAboveGood := True\<rparr>, False)"
  using assms by (simp add: rewardLogic_def Let_def)

lemma rewardLogic_quiet_flagged:
  assumes "\<not> rewardShowing s" and "deviceMode t = MODE_NORMAL"
    and "\<not> nowMs t - lessonStartMs s < MIN_LESSON_BEFORE_REWARD_MS"
    and "avgDB t \<le> greenMax (activeTh t)"
    and "needsResetAboveGood s"
  shows "rewardLogic t s = (s\<lparr>quietStartMs := 0\<rparr>, False)"
  using assms by (simp add: rewardLogic_def Let_def REWARD_SPIKE_MARGIN_DB_def)

lemma rewardLogic_quiet_locked:
  assumes "\<not> rewardShowing s" and "deviceMode t = MODE_NORMAL"
    and "\<not> nowMs t - lessonStartMs s < MIN_LESSON_BEFORE_REWARD_MS"
    and "avgDB t \<le> greenMax (activeTh t)"
    and "nowMs t < rewardCooldownUntilMs s \<or> nowMs t < penaltyUntilMs s"
  shows "rewardLogic t s = (s\<lparr>quietStartMs := 0\<rparr>, False)"
  using assms by (auto simp: rewardLogic_def Let_def REWARD_SPIKE_MARGIN_DB_def)

lemma rewardLogic_quiet_streak:
  assumes "\<not> rewardShowing s" and "deviceMode t = MODE_NORMAL"
    and "\<not> nowMs t - lessonStartMs s < MIN_LESSON_BEFORE_REWARD_MS"
    and "avgDB t \<le> greenMax (activeTh t)"
    and "\<not> needsResetAboveGood s"
    and "\<not> nowMs t < rewardCooldownUntilMs s" and "\<not> nowMs t < penaltyUntilMs s"
    and "q = (if quietStartMs s = 0 then nowMs t else quietStartMs s)"
    and "nowMs t - q < QUIET_REWARD_MS"
  shows "rewardLogic t s = (s\<lparr>quietStartMs := q\<rparr>, False)"
  using assms
  by (auto simp: rewardLogic_def Let_def REWARD_SPIKE_MARGIN_DB_def QUIET_REWARD_MS_def not_le
      split: if_splits)

lemma rewardLogic_quiet_grant:
  assumes "\<not> rewardShowing s" and "deviceMode t = MODE_NORMAL"
    and "\<not> nowMs t - lessonStartMs s < MIN_LESSON_BEFORE_REWARD_MS"
    and "avgDB t \<le> greenMax (activeTh t)"
    and "\<not> needsResetAboveGood s"
    and "\<not> nowMs t < rewardCooldownUntilMs s" and "\<not> nowMs t < penaltyUntilMs s"
    and "q = (if quietStartMs s = 0 then nowMs t else quietStartMs s)"
    and "QUIET_REWARD_MS \<le> nowMs t - q"
  shows "rewardLogic t s =
           (s\<lparr>quietStartMs := 0,
              rewardCooldownUntilMs := nowMs t + REWARD_COOLDOWN_MS,
              needsResetAboveGood := True,
              rewardActiveForLog := True,
              rewardLogUntilMs := nowMs t + REWARD_LOG_WINDOW_MS,
              rewardShowing := True,
              rewardStartMs := nowMs t\<rparr>, True)"
  using assms
  by (auto simp: rewardLogic_def Let_def REWARD_SPIKE_MARGIN_DB_def QUIET_REWARD_MS_def
      split: if_splits)

text \<open>While the flag is set, the reward block grants nothing, and only an average above
  \<open>goodDb\<close> and below the spike level clears the flag.\<close>

lemma rewardLogic_flag_blocks:
  "needsResetAboveGood s \<Longrightarrow> \<not> snd (rewardLogic t s)"
  by (simp add: rewardLogic_def Let_def)

lemma rewardLogic_flag_kept:
  assumes "needsResetAboveGood s"
    and "\<not> (greenMax (activeTh t) < avgDB t
            \<and> avgDB t < greenMax (activeTh t) + REWARD_SPIKE_MARGIN_DB)"
  shows "needsResetAboveGood (fst (rewardLogic t s))"
  using assms by (auto simp: rewardLogic_def Let_def)

lemma loop_tick_flag_blocks:
  assumes "needsResetAboveGood s"
  shows "snd (loop_tick t s) \<noteq> RewardGranted"
proof -
  have "needsResetAboveGood (sleepDetection t (lessonTransition t s))"
    using assms by (simp add: sleepDetection_fields lessonTransition_fields)
  then have "\<not> snd (rewardLogic t (sleepDetection t (lessonTransition t s)))"
    by (rule rewardLogic_flag_blocks)
  then show ?thesis
    by (auto simp: loop_tick_def Let_def split: prod.splits)
qed

lemma loop_tick_flag_kept:
  assumes "needsResetAboveGood s"
    and "\<not> (greenMax (activeTh t) < avgDB t
            \<and> avgDB t < greenMax (activeTh t) + REWARD_SPIKE_MARGIN_DB)"
  shows "needsResetAboveGood (fst (loop_tick t s))"
proof -
  let ?s1 = "sleepDetection t (lessonTransition t s)"
  have n1: "needsResetAboveGood ?s1"
    using assms(1) by (simp add: sleepDetection_fields lessonTransition_fields)
  have n0: "needsResetAboveGood (lessonTransition t s)"
    using assms(1) by (simp add: lessonTransition_fields)
  have n2: "needsResetAboveGood (fst (rewardLogic t ?s1))"
    by (rule rewardLogic_flag_kept [OF n1 assms(2)])
  have n3: "needsResetAboveGood (rewardLogExpiry t (fst (rewardDisplay t (fst (rewardLogic t ?s1)))))"
    using n2 by (simp add: rewardLogExpiry_fields rewardDisplay_fields)
  have n4: "needsResetAboveGood (fst (rewardDisplay t (fst (rewardLogic t ?s1))))"
    using n2 by (simp add: rewardDisplay_fields)
  show ?thesis
    using n0 n1 n2 n3 n4
    by (auto simp: loop_tick_def Let_def split: prod.splits)
qed

text \<open>
  C1. Starting from any state in which \<open>needsResetAboveGood\<close> is set (as the grant of a
  reward leaves it), over every sequence of loop iterations, an iteration that grants a
  reward is preceded by an iteration whose rolling average was strictly above \<open>goodDb\<close>
  (the \<open>greenMax\<close> active at that iteration), and below the spike level there. No amount of
  elapsed time replaces that.
\<close>

theorem no_reward_before_average_exceeds_good:
  assumes "needsResetAboveGood s" and "i < length ts"
    and "outcomes s ts ! i = RewardGranted"
  shows "\<exists>j<i. greenMax (activeTh (ts ! j)) < avgDB (ts ! j)
              \<and> avgDB (ts ! j) < greenMax (activeTh (ts ! j)) + REWARD_SPIKE_MARGIN_DB"
  using assms
proof (induction ts arbitrary: s i)
  case Nil
  then show ?case by simp
next
  case (Cons t ts)
  show ?case
  proof (cases i)
    case 0
    then have "snd (loop_tick t s) = RewardGranted" using Cons.prems(3) by simp
    then show ?thesis using loop_tick_flag_blocks [OF Cons.prems(1)] by simp
  next
    case (Suc k)
    show ?thesis
    proof (cases "greenMax (activeTh t) < avgDB t
                  \<and> avgDB t < greenMax (activeTh t) + REWARD_SPIKE_MARGIN_DB")
      case True
      then show ?thesis using Suc by (intro exI [of _ 0]) simp
    next
      case False
      have flag: "needsResetAboveGood (fst (loop_tick t s))"
        by (rule loop_tick_flag_kept [OF Cons.prems(1) False])
      have k: "k < length ts" using Cons.prems(2) Suc by simp
      have g: "outcomes (fst (loop_tick t s)) ts ! k = RewardGranted"
        using Cons.prems(3) Suc by simp
      from Cons.IH [OF flag k g] obtain j where
        "j < k" "greenMax (activeTh (ts ! j)) < avgDB (ts ! j)"
        "avgDB (ts ! j) < greenMax (activeTh (ts ! j)) + REWARD_SPIKE_MARGIN_DB"
        by blast
      then show ?thesis using Suc by (intro exI [of _ "Suc j"]) simp
    qed
  qed
qed

text \<open>
  C1 used on a state that a grant has just left: from boot at 1000 ms a quiet feed earns
  the reward at 241000 ms; then a quiet tick, one tick at 50 dB (above 49, below 57) once
  the cooldown is over, and two quiet ticks 120 s apart, the last of which grants again.
\<close>

theorem second_reward_witness:
  "needsResetAboveGood (run (initial_state 1000) (feedAt [1000, 121000, 241000] 40))
   \<and> 3 < length (feedAt [245000] 40 @ feedAt [430000] 50 @ feedAt [430200, 550200] 40)
   \<and> outcomes (run (initial_state 1000) (feedAt [1000, 121000, 241000] 40))
        (feedAt [245000] 40 @ feedAt [430000] 50 @ feedAt [430200, 550200] 40) ! 3
       = RewardGranted
   \<and> (\<exists>j<3. greenMax (activeTh ((feedAt [245000] 40 @ feedAt [430000] 50
                                    @ feedAt [430200, 550200] 40) ! j))
               < avgDB ((feedAt [245000] 40 @ feedAt [430000] 50
                           @ feedAt [430200, 550200] 40) ! j)
            \<and> avgDB ((feedAt [245000] 40 @ feedAt [430000] 50
                           @ feedAt [430200, 550200] 40) ! j)
               < greenMax (activeTh ((feedAt [245000] 40 @ feedAt [430000] 50
                                    @ feedAt [430200, 550200] 40) ! j))
                 + REWARD_SPIKE_MARGIN_DB)"
proof -
  let ?s = "run (initial_state 1000) (feedAt [1000, 121000, 241000] 40)"
  let ?ts = "feedAt [245000] 40 @ feedAt [430000] 50 @ feedAt [430200, 550200] 40"
  have h1: "needsResetAboveGood ?s" by code_simp
  have h2: "3 < length ?ts" by (simp add: feedAt_def)
  have h3: "outcomes ?s ?ts ! 3 = RewardGranted" by code_simp
  from no_reward_before_average_exceeds_good [OF h1 h2 h3] h1 h2 h3
  show ?thesis by blast
qed

subsection \<open>Quiet reward: the 40 dB feed\<close>

lemma lessonTick_sel:
  "nowMs (lessonTick now avg) = now"
  "dispMs (lessonTick now avg) = now"
  "ws (lessonTick now avg) = LESSON"
  "deviceMode (lessonTick now avg) = MODE_NORMAL"
  "avgDB (lessonTick now avg) = avg"
  "greenMax (activeTh (lessonTick now avg)) = 49"
  by (simp_all add: lessonTick_def Y2Y3_active mkTh_def)

lemma run_append: "run s (xs @ ys) = run (run s xs) ys"
  by (induction xs arbitrary: s) simp_all

lemma outcomes_append: "outcomes s (xs @ ys) = outcomes s xs @ outcomes (run s xs) ys"
  by (induction xs arbitrary: s) simp_all

lemma feedAt_simps:
  "feedAt [] avg = []"
  "feedAt (t # ts) avg = lessonTick t avg # feedAt ts avg"
  "feedAt (ts @ us) avg = feedAt ts avg @ feedAt us avg"
  by (simp_all add: feedAt_def)

text \<open>A lesson tick in a room that is not silent: sleep detection only clears its own fields.\<close>

lemma sleepDetection_loud:
  assumes "SLEEP_DB_THRESHOLD \<le> avgDB t"
  shows "sleepDetection t s = s\<lparr>silenceStart := 0, inSleepMode := False\<rparr>"
  using assms
  by (cases s) (simp add: sleepDetection_def Let_def SLEEP_DB_THRESHOLD_def WAKE_DB_THRESHOLD_def)

lemma loop_tick_lesson_loud:
  assumes "lastWs s = LESSON" and "ws t = LESSON" and "SLEEP_DB_THRESHOLD \<le> avgDB t"
  shows "loop_tick t s =
     (case rewardLogic t (s\<lparr>silenceStart := 0, inSleepMode := False\<rparr>) of (s2, granted) \<Rightarrow>
        if granted then (s2, RewardGranted)
        else (case rewardDisplay t s2 of (s3, swirling) \<Rightarrow>
                if swirling then (s3, RewardSwirl) else (rewardLogExpiry t s3, LedUpdate)))"
  using assms
  by (simp add: loop_tick_def Let_def lessonTransition_in_lesson sleepDetection_loud)

lemma quiet_is_loud_enough: "SLEEP_DB_THRESHOLD \<le> avgDB (lessonTick now 40)"
  by (simp add: lessonTick_sel SLEEP_DB_THRESHOLD_def)

text \<open>The steps of the machine under a rolling average of 40 dB with Y2Y3 thresholds.\<close>

lemma step_gate:
  assumes "idleAt l s" and "t - l < MIN_LESSON_BEFORE_REWARD_MS"
  shows "snd (loop_tick (lessonTick t 40) s) = LedUpdate"
    and "idleAt l (fst (loop_tick (lessonTick t 40) s))"
    and "rewardCooldownUntilMs (fst (loop_tick (lessonTick t 40) s)) = rewardCooldownUntilMs s"
    and "penaltyUntilMs (fst (loop_tick (lessonTick t 40) s)) = penaltyUntilMs s"
proof -
  let ?s = "s\<lparr>silenceStart := 0, inSleepMode := False\<rparr>"
  have l: "lastWs s = LESSON" using assms(1) by (simp add: idleAt_def)
  have r: "rewardLogic (lessonTick t 40) ?s = (?s\<lparr>quietStartMs := 0\<rparr>, False)"
    using assms by (intro rewardLogic_gate) (simp_all add: idleAt_def lessonTick_sel)
  have lt: "loop_tick (lessonTick t 40) s
              = (rewardLogExpiry (lessonTick t 40) (?s\<lparr>quietStartMs := 0\<rparr>), LedUpdate)"
    using assms(1)
    by (simp add: loop_tick_lesson_loud [OF l lessonTick_sel(3) quiet_is_loud_enough] r
        rewardDisplay_def idleAt_def)
  show "snd (loop_tick (lessonTick t 40) s) = LedUpdate" by (simp add: lt)
  show "idleAt l (fst (loop_tick (lessonTick t 40) s))"
    using assms(1) by (simp add: lt idleAt_def rewardLogExpiry_fields)
  show "rewardCooldownUntilMs (fst (loop_tick (lessonTick t 40) s)) = rewardCooldownUntilMs s"
    by (simp add: lt rewardLogExpiry_fields)
  show "penaltyUntilMs (fst (loop_tick (lessonTick t 40) s)) = penaltyUntilMs s"
    by (simp add: lt rewardLogExpiry_fields)
qed

lemma step_first:
  assumes "idleAt l s" and "t \<noteq> 0" and "MIN_LESSON_BEFORE_REWARD_MS \<le> t - l"
    and "rewardCooldownUntilMs s \<le> t" and "penaltyUntilMs s \<le> t"
  shows "snd (loop_tick (lessonTick t 40) s) = LedUpdate"
    and "streakingFrom t l (fst (loop_tick (lessonTick t 40) s))"
proof -
  let ?s = "s\<lparr>silenceStart := 0, inSleepMode := False\<rparr>"
  have l: "lastWs s = LESSON" using assms(1) by (simp add: idleAt_def)
  have r: "rewardLogic (lessonTick t 40) ?s = (?s\<lparr>quietStartMs := t\<rparr>, False)"
    using assms
    by (intro rewardLogic_quiet_streak)
       (simp_all add: idleAt_def lessonTick_sel not_less QUIET_REWARD_MS_def)
  have lt: "loop_tick (lessonTick t 40) s
              = (rewardLogExpiry (lessonTick t 40) (?s\<lparr>quietStartMs := t\<rparr>), LedUpdate)"
    using assms(1)
    by (simp add: loop_tick_lesson_loud [OF l lessonTick_sel(3) quiet_is_loud_enough] r
        rewardDisplay_def idleAt_def)
  show "snd (loop_tick (lessonTick t 40) s) = LedUpdate" by (simp add: lt)
  show "streakingFrom t l (fst (loop_tick (lessonTick t 40) s))"
    using assms by (simp add: lt idleAt_def streakingFrom_def rewardLogExpiry_fields)
qed

lemma step_streak:
  assumes "streakingFrom q l s" and "q \<noteq> 0" and "MIN_LESSON_BEFORE_REWARD_MS \<le> t - l"
    and "q \<le> t" and "t - q < QUIET_REWARD_MS"
  shows "snd (loop_tick (lessonTick t 40) s) = LedUpdate"
    and "streakingFrom q l (fst (loop_tick (lessonTick t 40) s))"
proof -
  let ?s = "s\<lparr>silenceStart := 0, inSleepMode := False\<rparr>"
  have l: "lastWs s = LESSON" using assms(1) by (simp add: streakingFrom_def)
  have c: "\<not> t < rewardCooldownUntilMs s" "\<not> t < penaltyUntilMs s"
    using assms(1,4) by (auto simp: streakingFrom_def)
  have r: "rewardLogic (lessonTick t 40) ?s = (?s\<lparr>quietStartMs := q\<rparr>, False)"
    using assms c
    by (intro rewardLogic_quiet_streak) (simp_all add: streakingFrom_def lessonTick_sel not_less)
  have lt: "loop_tick (lessonTick t 40) s
              = (rewardLogExpiry (lessonTick t 40) (?s\<lparr>quietStartMs := q\<rparr>), LedUpdate)"
    using assms(1)
    by (simp add: loop_tick_lesson_loud [OF l lessonTick_sel(3) quiet_is_loud_enough] r
        rewardDisplay_def streakingFrom_def)
  show "snd (loop_tick (lessonTick t 40) s) = LedUpdate" by (simp add: lt)
  show "streakingFrom q l (fst (loop_tick (lessonTick t 40) s))"
    using assms(1) by (simp add: lt streakingFrom_def rewardLogExpiry_fields)
qed

lemma step_grant:
  assumes "streakingFrom q l s" and "q \<noteq> 0" and "MIN_LESSON_BEFORE_REWARD_MS \<le> t - l"
    and "q \<le> t" and "QUIET_REWARD_MS \<le> t - q"
  shows "snd (loop_tick (lessonTick t 40) s) = RewardGranted"
    and "showingSince t (fst (loop_tick (lessonTick t 40) s))"
    and "rewardCooldownUntilMs (fst (loop_tick (lessonTick t 40) s)) = t + REWARD_COOLDOWN_MS"
proof -
  let ?s = "s\<lparr>silenceStart := 0, inSleepMode := False\<rparr>"
  have l: "lastWs s = LESSON" using assms(1) by (simp add: streakingFrom_def)
  have c: "\<not> t < rewardCooldownUntilMs s" "\<not> t < penaltyUntilMs s"
    using assms(1,4) by (auto simp: streakingFrom_def)
  have r: "rewardLogic (lessonTick t 40) ?s =
           (?s\<lparr>quietStartMs := 0,
              rewardCooldownUntilMs := nowMs (lessonTick t 40) + REWARD_COOLDOWN_MS,
              needsResetAboveGood := True,
              rewardActiveForLog := True,
              rewardLogUntilMs := nowMs (lessonTick t 40) + REWARD_LOG_WINDOW_MS,
              rewardShowing := True,
              rewardStartMs := nowMs (lessonTick t 40)\<rparr>, True)"
    using assms c
    by (intro rewardLogic_quiet_grant [where q = q])
       (simp_all add: streakingFrom_def lessonTick_sel not_less)
  have lt: "loop_tick (lessonTick t 40) s =
           (?s\<lparr>quietStartMs := 0,
              rewardCooldownUntilMs := t + REWARD_COOLDOWN_MS,
              needsResetAboveGood := True,
              rewardActiveForLog := True,
              rewardLogUntilMs := t + REWARD_LOG_WINDOW_MS,
              rewardShowing := True,
              rewardStartMs := t\<rparr>, RewardGranted)"
    by (simp add: loop_tick_lesson_loud [OF l lessonTick_sel(3) quiet_is_loud_enough] r
        lessonTick_sel)
  show "snd (loop_tick (lessonTick t 40) s) = RewardGranted" by (simp add: lt)
  show "showingSince t (fst (loop_tick (lessonTick t 40) s))"
    using l by (simp add: lt showingSince_def)
  show "rewardCooldownUntilMs (fst (loop_tick (lessonTick t 40) s)) = t + REWARD_COOLDOWN_MS"
    by (simp add: lt)
qed

lemma step_showing:
  assumes "showingSince r s" and "t - r < REWARD_DURATION_MS"
  shows "snd (loop_tick (lessonTick t 40) s) = RewardSwirl"
    and "showingSince r (fst (loop_tick (lessonTick t 40) s))"
proof -
  let ?s = "s\<lparr>silenceStart := 0, inSleepMode := False\<rparr>"
  have l: "lastWs s = LESSON" using assms(1) by (simp add: showingSince_def)
  have r: "rewardLogic (lessonTick t 40) ?s = (?s, False)"
    using assms(1) by (intro rewardLogic_skipped) (simp add: showingSince_def)
  have lt: "loop_tick (lessonTick t 40) s = (?s, RewardSwirl)"
    using assms
    by (simp add: loop_tick_lesson_loud [OF l lessonTick_sel(3) quiet_is_loud_enough] r
        rewardDisplay_def showingSince_def lessonTick_sel)
  show "snd (loop_tick (lessonTick t 40) s) = RewardSwirl" by (simp add: lt)
  show "showingSince r (fst (loop_tick (lessonTick t 40) s))"
    using assms(1) by (simp add: lt showingSince_def)
qed

lemma step_expire:
  assumes "showingSince r s" and "REWARD_DURATION_MS \<le> t - r"
  shows "snd (loop_tick (lessonTick t 40) s) = LedUpdate"
    and "idleFlagged (fst (loop_tick (lessonTick t 40) s))"
proof -
  let ?s = "s\<lparr>silenceStart := 0, inSleepMode := False\<rparr>"
  have l: "lastWs s = LESSON" using assms(1) by (simp add: showingSince_def)
  have r: "rewardLogic (lessonTick t 40) ?s = (?s, False)"
    using assms(1) by (intro rewardLogic_skipped) (simp add: showingSince_def)
  have lt: "loop_tick (lessonTick t 40) s =
      (rewardLogExpiry (lessonTick t 40) (?s\<lparr>rewardShowing := False, quietStartMs := 0\<rparr>),
       LedUpdate)"
    using assms
    by (simp add: loop_tick_lesson_loud [OF l lessonTick_sel(3) quiet_is_loud_enough] r
        rewardDisplay_def showingSince_def lessonTick_sel not_less)
  show "snd (loop_tick (lessonTick t 40) s) = LedUpdate" by (simp add: lt)
  show "idleFlagged (fst (loop_tick (lessonTick t 40) s))"
    using assms(1) by (simp add: lt showingSince_def idleFlagged_def rewardLogExpiry_fields)
qed

lemma step_flagged:
  assumes "idleFlagged s"
  shows "snd (loop_tick (lessonTick t 40) s) = LedUpdate"
    and "idleFlagged (fst (loop_tick (lessonTick t 40) s))"
proof -
  let ?s = "s\<lparr>silenceStart := 0, inSleepMode := False\<rparr>"
  have l: "lastWs s = LESSON" using assms(1) by (simp add: idleFlagged_def)
  have r: "rewardLogic (lessonTick t 40) ?s = (?s\<lparr>quietStartMs := 0\<rparr>, False)"
  proof (cases "t - lessonStartMs s < MIN_LESSON_BEFORE_REWARD_MS")
    case True
    then show ?thesis
      using assms by (intro rewardLogic_gate) (simp_all add: idleFlagged_def lessonTick_sel)
  next
    case False
    then show ?thesis
      using assms
      by (intro rewardLogic_quiet_flagged) (simp_all add: idleFlagged_def lessonTick_sel)
  qed
  have lt: "loop_tick (lessonTick t 40) s
              = (rewardLogExpiry (lessonTick t 40) (?s\<lparr>quietStartMs := 0\<rparr>), LedUpdate)"
    using assms(1)
    by (simp add: loop_tick_lesson_loud [OF l lessonTick_sel(3) quiet_is_loud_enough] r
        rewardDisplay_def idleFlagged_def)
  show "snd (loop_tick (lessonTick t 40) s) = LedUpdate" by (simp add: lt)
  show "idleFlagged (fst (loop_tick (lessonTick t 40) s))"
    using assms(1) by (simp add: lt idleFlagged_def rewardLogExpiry_fields)
qed

text \<open>The same steps over a whole list of clock values.\<close>

lemma phase_gate:
  assumes "idleAt l s" and "\<forall>t\<in>set ts. t - l < MIN_LESSON_BEFORE_REWARD_MS"
  shows "outcomes s (feedAt ts 40) = replicate (length ts) LedUpdate
       \<and> idleAt l (run s (feedAt ts 40))
       \<and> rewardCooldownUntilMs (run s (feedAt ts 40)) = rewardCooldownUntilMs s
       \<and> penaltyUntilMs (run s (feedAt ts 40)) = penaltyUntilMs s"
  using assms
proof (induction ts arbitrary: s)
  case Nil
  then show ?case by (simp add: feedAt_simps)
next
  case (Cons t ts)
  have g: "t - l < MIN_LESSON_BEFORE_REWARD_MS" using Cons.prems(2) by simp
  note st = step_gate [OF Cons.prems(1) g]
  have rest: "\<forall>t\<in>set ts. t - l < MIN_LESSON_BEFORE_REWARD_MS" using Cons.prems(2) by simp
  from Cons.IH [OF st(2) rest] st(1) st(3) st(4) show ?case by (simp add: feedAt_simps)
qed

lemma phase_streak:
  assumes "streakingFrom q l s" and "q \<noteq> 0"
    and "\<forall>t\<in>set ts. MIN_LESSON_BEFORE_REWARD_MS \<le> t - l \<and> q \<le> t \<and> t - q < QUIET_REWARD_MS"
  shows "outcomes s (feedAt ts 40) = replicate (length ts) LedUpdate
       \<and> streakingFrom q l (run s (feedAt ts 40))"
  using assms(1,3)
proof (induction ts arbitrary: s)
  case Nil
  then show ?case by (simp add: feedAt_simps)
next
  case (Cons t ts)
  have g: "MIN_LESSON_BEFORE_REWARD_MS \<le> t - l" "q \<le> t" "t - q < QUIET_REWARD_MS"
    using Cons.prems(2) by simp_all
  note st = step_streak [OF Cons.prems(1) assms(2) g]
  have rest: "\<forall>t\<in>set ts. MIN_LESSON_BEFORE_REWARD_MS \<le> t - l \<and> q \<le> t \<and> t - q < QUIET_REWARD_MS"
    using Cons.prems(2) by simp
  from Cons.IH [OF st(2) rest] st(1) show ?case by (simp add: feedAt_simps)
qed

lemma phase_showing:
  assumes "showingSince r s" and "\<forall>t\<in>set ts. t - r < REWARD_DURATION_MS"
  shows "outcomes s (feedAt ts 40) = replicate (length ts) RewardSwirl
       \<and> showingSince r (run s (feedAt ts 40))"
  using assms
proof (induction ts arbitrary: s)
  case Nil
  then show ?case by (simp add: feedAt_simps)
next
  case (Cons t ts)
  have g: "t - r < REWARD_DURATION_MS" using Cons.prems(2) by simp
  note st = step_showing [OF Cons.prems(1) g]
  have rest: "\<forall>t\<in>set ts. t - r < REWARD_DURATION_MS" using Cons.prems(2) by simp
  from Cons.IH [OF st(2) rest] st(1) show ?case by (simp add: feedAt_simps)
qed

lemma phase_flagged:
  assumes "idleFlagged s"
  shows "outcomes s (feedAt ts 40) = replicate (length ts) LedUpdate
       \<and> idleFlagged (run s (feedAt ts 40))"
  using assms
proof (induction ts arbitrary: s)
  case Nil
  then show ?case by (simp add: feedAt_simps)
next
  case (Cons t ts)
  note st = step_flagged [OF Cons.prems(1), of t]
  from Cons.IH [OF st(2)] st(1) show ?case by (simp add: feedAt_simps)
qed

lemma count_list_replicate:
  "count_list (replicate n x) y = (if x = y then n else 0)"
  by (induction n) auto

text \<open>
  C7, amended. With band Y2Y3 the default active thresholds are (49, 52, 55). Let the
  machine be idle in a Lesson window (no reward showing, flag clear, no streak), with no
  cooldown or penalty left at \<open>t0\<close>, and let a constant rolling average of 40.0 be fed at
  the clock values \<open>t0\<close>, then \<open>pre\<close>, \<open>tg\<close>, \<open>showing\<close>, \<open>te\<close> and \<open>post\<close>, where the lesson has
  lasted at least \<open>MIN_LESSON_BEFORE_REWARD_MS\<close> at each tick up to \<open>tg\<close>, the ticks of \<open>pre\<close>
  are less than 120 s after \<open>t0\<close>, \<open>tg\<close> is the first tick at least 120 s after \<open>t0\<close>, the
  ticks of \<open>showing\<close> are less than 3 s after \<open>tg\<close>, and \<open>te\<close> is at least 3 s after \<open>tg\<close>.
  Then exactly one reward is granted, at \<open>tg\<close>; the animation is shown on every tick of
  \<open>showing\<close>; from \<open>te\<close> on the loop is back to the LED update, and at the end no reward is
  showing and the streak is zero.
\<close>

theorem quiet_feed_grants_once:
  assumes "\<not> rewardShowing s" and "\<not> needsResetAboveGood s" and "quietStartMs s = 0"
    and "lastWs s = LESSON"
    and "rewardCooldownUntilMs s \<le> t0" and "penaltyUntilMs s \<le> t0" and "t0 \<noteq> 0"
    and "\<forall>t\<in>set (t0 # pre @ [tg]). MIN_LESSON_BEFORE_REWARD_MS \<le> t - lessonStartMs s \<and> t0 \<le> t"
    and "\<forall>t\<in>set pre. t - t0 < QUIET_REWARD_MS"
    and "QUIET_REWARD_MS \<le> tg - t0"
    and "\<forall>t\<in>set showing. t - tg < REWARD_DURATION_MS"
    and "REWARD_DURATION_MS \<le> te - tg"
  shows "thresholdsForBand (Some ''Y2Y3'') = mkTh 49 52 55
     \<and> bandActiveThresholds ''Y2Y3'' = mkTh 49 52 55
     \<and> outcomes s (feedAt (t0 # pre @ [tg] @ showing @ [te] @ post) 40)
         = replicate (Suc (length pre)) LedUpdate @ [RewardGranted]
           @ replicate (length showing) RewardSwirl @ replicate (Suc (length post)) LedUpdate
     \<and> count_list (outcomes s (feedAt (t0 # pre @ [tg] @ showing @ [te] @ post) 40))
         RewardGranted = 1
     \<and> \<not> rewardShowing (run s (feedAt (t0 # pre @ [tg] @ showing @ [te] @ post) 40))
     \<and> quietStartMs (run s (feedAt (t0 # pre @ [tg] @ showing @ [te] @ post) 40)) = 0"
proof -
  let ?l = "lessonStartMs s"
  have idle: "idleAt ?l s" using assms(1-4) by (simp add: idleAt_def)
  have g0: "MIN_LESSON_BEFORE_REWARD_MS \<le> t0 - ?l" using assms(8) by simp
  note s0 = step_first [OF idle assms(7) g0 assms(5) assms(6)]
  let ?s0 = "fst (loop_tick (lessonTick t0 40) s)"
  have pre: "\<forall>t\<in>set pre. MIN_LESSON_BEFORE_REWARD_MS \<le> t - ?l \<and> t0 \<le> t \<and> t - t0 < QUIET_REWARD_MS"
    using assms(8,9) by simp
  note p1 = phase_streak [OF s0(2) assms(7) pre]
  let ?s1 = "run ?s0 (feedAt pre 40)"
  have gg: "MIN_LESSON_BEFORE_REWARD_MS \<le> tg - ?l" "t0 \<le> tg" using assms(8) by simp_all
  have str1: "streakingFrom t0 ?l ?s1" using p1 by blast
  note sg = step_grant [OF str1 assms(7) gg assms(10)]
  let ?s2 = "fst (loop_tick (lessonTick tg 40) ?s1)"
  note p2 = phase_showing [OF sg(2) assms(11)]
  let ?s3 = "run ?s2 (feedAt showing 40)"
  have sh3: "showingSince tg ?s3" using p2 by blast
  note se = step_expire [OF sh3 assms(12)]
  let ?s4 = "fst (loop_tick (lessonTick te 40) ?s3)"
  note p3 = phase_flagged [OF se(2), of post]
  let ?all = "feedAt (t0 # pre @ [tg] @ showing @ [te] @ post) 40"
  have split: "?all = lessonTick t0 40 # (feedAt pre 40 @ (lessonTick tg 40 #
                 (feedAt showing 40 @ (lessonTick te 40 # feedAt post 40))))"
    by (simp add: feedAt_def)
  have out: "outcomes s ?all
         = replicate (Suc (length pre)) LedUpdate @ [RewardGranted]
           @ replicate (length showing) RewardSwirl @ replicate (Suc (length post)) LedUpdate"
    unfolding split
    using s0(1) p1 sg(1) p2 se(1) p3
    by (simp add: outcomes_append run_append replicate_append_same)
  have fin: "run s ?all = run ?s4 (feedAt post 40)"
    unfolding split by (simp add: run_append)
  have flagged: "idleFlagged (run s ?all)" unfolding fin using p3 by blast
  have cnt: "count_list (outcomes s ?all) RewardGranted = 1"
    unfolding out by (simp add: count_list_replicate del: replicate_Suc)
  have band: "thresholdsForBand (Some ''Y2Y3'') = mkTh 49 52 55"
    by (simp add: thresholdsForBand_def toUpperCase_def toupper_def)
  from band Y2Y3_active out cnt flagged show ?thesis by (simp add: idleFlagged_def)
qed


text \<open>
  The amended statement used in a lesson that began at 1000 ms: quiet ticks from
  200000 ms, the grant at 320000 ms, the animation until 323000 ms.
\<close>

theorem quiet_feed_witness:
  "\<not> rewardShowing ((initial_state 1000)\<lparr>lastWs := LESSON\<rparr>)
   \<and> \<not> needsResetAboveGood ((initial_state 1000)\<lparr>lastWs := LESSON\<rparr>)
   \<and> quietStartMs ((initial_state 1000)\<lparr>lastWs := LESSON\<rparr>) = 0
   \<and> lastWs ((initial_state 1000)\<lparr>lastWs := LESSON\<rparr>) = LESSON
   \<and> rewardCooldownUntilMs ((initial_state 1000)\<lparr>lastWs := LESSON\<rparr>) \<le> 200000
   \<and> penaltyUntilMs ((initial_state 1000)\<lparr>lastWs := LESSON\<rparr>) \<le> 200000
   \<and> (200000 :: 32 word) \<noteq> 0
   \<and> MIN_LESSON_BEFORE_REWARD_MS
        \<le> 200000 - lessonStartMs ((initial_state 1000)\<lparr>lastWs := LESSON\<rparr>)
   \<and> (319800 :: 32 word) - 200000 < QUIET_REWARD_MS
   \<and> QUIET_REWARD_MS \<le> 320000 - 200000
   \<and> (322800 :: 32 word) - 320000 < REWARD_DURATION_MS
   \<and> REWARD_DURATION_MS \<le> 323000 - 320000
   \<and> outcomes ((initial_state 1000)\<lparr>lastWs := LESSON\<rparr>)
        (feedAt (200000 # [200200, 260000, 319800] @ [320000] @ [320200, 322800] @ [323000]
                   @ [323200, 600000]) 40)
       = [LedUpdate, LedUpdate, LedUpdate, LedUpdate, RewardGranted, RewardSwirl, RewardSwirl,
          LedUpdate, LedUpdate, LedUpdate]"
proof -
  let ?s = "(initial_state 1000)\<lparr>lastWs := LESSON\<rparr>"
  have h1: "\<not> rewardShowing ?s" and h2: "\<not> needsResetAboveGood ?s"
    and h3: "quietStartMs ?s = 0" and h4: "lastWs ?s = LESSON"
    and h5: "rewardCooldownUntilMs ?s \<le> 200000" and h6: "penaltyUntilMs ?s \<le> 200000"
    by (simp_all add: initial_state_def)
  have h7: "(200000 :: 32 word) \<noteq> 0" by simp
  have h8: "\<forall>t\<in>set (200000 # [200200, 260000, 319800] @ [320000]).
         MIN_LESSON_BEFORE_REWARD_MS \<le> t - lessonStartMs ?s \<and> 200000 \<le> t"
    by (simp add: initial_state_def MIN_LESSON_BEFORE_REWARD_MS_def)
  have h9: "\<forall>t\<in>set [200200, 260000, 319800 :: 32 word]. t - 200000 < QUIET_REWARD_MS"
    by (simp add: QUIET_REWARD_MS_def)
  have h10: "QUIET_REWARD_MS \<le> 320000 - 200000" by (simp add: QUIET_REWARD_MS_def)
  have h11: "\<forall>t\<in>set [320200, 322800 :: 32 word]. t - 320000 < REWARD_DURATION_MS"
    by (simp add: REWARD_DURATION_MS_def)
  have h12: "REWARD_DURATION_MS \<le> 323000 - 320000" by (simp add: REWARD_DURATION_MS_def)
  have out: "outcomes ?s
        (feedAt (200000 # [200200, 260000, 319800] @ [320000] @ [320200, 322800] @ [323000]
                   @ [323200, 600000]) 40)
       = [LedUpdate, LedUpdate, LedUpdate, LedUpdate, RewardGranted, RewardSwirl, RewardSwirl,
          LedUpdate, LedUpdate, LedUpdate]"
    using quiet_feed_grants_once [OF h1 h2 h3 h4 h5 h6 h7 h8 h9 h10 h11 h12, of "[323200, 600000]"]
    by (simp add: numeral_eq_Suc)
  have g: "MIN_LESSON_BEFORE_REWARD_MS \<le> 200000 - lessonStartMs ?s"
    and q: "(319800 :: 32 word) - 200000 < QUIET_REWARD_MS"
    and d: "(322800 :: 32 word) - 320000 < REWARD_DURATION_MS"
    using h8 h9 h11 by simp_all
  from h1 h2 h3 h4 h5 h6 h7 g q h10 d h12 out show ?thesis by blast
qed

text \<open>A steady feed as a feed at explicit clock values; splitting a steady feed.\<close>

lemma steadyFeed_feedAt:
  "steadyFeed start step n avg = feedAt (map (\<lambda>k. start + of_nat k * step) [0..<n]) avg"
proof (induction n arbitrary: start)
  case 0
  show ?case by (simp add: feedAt_def)
next
  case (Suc n)
  have "[0..<Suc n] = 0 # map Suc [0..<n]"
    by (simp add: upt_conv_Cons map_Suc_upt del: upt_Suc)
  then have "map (\<lambda>k. start + of_nat k * step) [0..<Suc n]
               = start # map (\<lambda>k. start + step + of_nat k * step) [0..<n]"
    by (simp add: algebra_simps del: upt_Suc)
  then show ?case by (simp add: Suc.IH feedAt_def del: upt_Suc)
qed

lemma steadyFeed_add:
  "steadyFeed start step (m + n) avg
     = steadyFeed start step m avg @ steadyFeed (start + of_nat m * step) step n avg"
  by (induction m arbitrary: start) (simp_all add: algebra_simps)

lemma loop_tick_after_transition:
  assumes "ws t = LESSON"
  shows "loop_tick t (lessonTransition t s) = loop_tick t s"
proof -
  have "lessonTransition t (lessonTransition t s) = lessonTransition t s"
    using assms by (intro lessonTransition_in_lesson) (simp_all add: lessonTransition_fields)
  then show ?thesis by (simp add: loop_tick_def)
qed

lemma boot_tick:
  "snd (loop_tick (lessonTick b 40) (initial_state b)) = LedUpdate
   \<and> idleAt b (fst (loop_tick (lessonTick b 40) (initial_state b)))
   \<and> rewardCooldownUntilMs (fst (loop_tick (lessonTick b 40) (initial_state b))) = 0
   \<and> penaltyUntilMs (fst (loop_tick (lessonTick b 40) (initial_state b))) = 0"
proof -
  let ?t = "lessonTick b 40"
  let ?s = "lessonTransition ?t (initial_state b)"
  have idle: "idleAt b ?s"
    by (simp add: lessonTransition_def Let_def initial_state_def idleAt_def lessonTick_sel)
  have g: "b - b < MIN_LESSON_BEFORE_REWARD_MS" by (simp add: MIN_LESSON_BEFORE_REWARD_MS_def)
  have c: "rewardCooldownUntilMs ?s = 0" "penaltyUntilMs ?s = 0"
    by (simp_all add: lessonTransition_fields initial_state_def)
  have e: "loop_tick ?t ?s = loop_tick ?t (initial_state b)"
    by (rule loop_tick_after_transition) (simp add: lessonTick_sel)
  from step_gate [OF idle g] c show ?thesis unfolding e by simp
qed

lemma small_clock:
  fixes n m :: nat
  assumes "n < m" and "m < 2 ^ 32"
  shows "(of_nat n :: 32 word) < of_nat m"
proof -
  have "unat (of_nat n :: 32 word) = n" "unat (of_nat m :: 32 word) = m"
    using assms by (simp_all add: unat_of_nat)
  then show ?thesis using assms(1) by (simp add: word_less_nat_alt)
qed

lemma gate_clock:
  fixes k :: nat
  assumes "k < 599"
  shows "(5200 + of_nat k * 200 :: 32 word) - 5000 < MIN_LESSON_BEFORE_REWARD_MS"
proof -
  have "(5200 + of_nat k * 200 :: 32 word) - 5000 = of_nat (200 + k * 200)" by simp
  moreover have "(of_nat (200 + k * 200) :: 32 word) < of_nat 120000"
    using assms by (intro small_clock) simp_all
  ultimately show ?thesis by (simp add: MIN_LESSON_BEFORE_REWARD_MS_def)
qed

text \<open>
  C7, as stated, fails: from the state that \<open>setup()\<close> leaves at 5000 ms, a Lesson window
  with band Y2Y3, no cooldown and a constant average of 40.0 fed every 200 ms for 121 s
  (606 ticks, the last at 126000 ms) grants no reward: every iteration ends in the LED
  update, because the lesson has to last two minutes before a streak may start.
\<close>

theorem boot_feed_grants_nothing:
  "outcomes (initial_state 5000) (steadyFeed 5000 200 606 40) = replicate 606 LedUpdate"
proof -
  let ?b = "fst (loop_tick (lessonTick 5000 40) (initial_state 5000))"
  have split: "steadyFeed 5000 200 606 40
      = lessonTick 5000 40 # (steadyFeed 5200 200 599 40
          @ (lessonTick 125000 40 # feedAt [125200, 125400, 125600, 125800, 126000] 40))"
  proof -
    have "steadyFeed 5000 200 (1 + (599 + (1 + 5))) 40
      = lessonTick 5000 40 # (steadyFeed 5200 200 599 40
          @ (lessonTick 125000 40 # feedAt [125200, 125400, 125600, 125800, 126000] 40))"
      unfolding steadyFeed_add by (simp add: numeral_eq_Suc feedAt_def)
    then show ?thesis by simp
  qed
  note b = boot_tick [of 5000]
  have idle: "idleAt 5000 ?b" using b by blast
  let ?gate = "map (\<lambda>k. 5200 + of_nat k * 200) [0..<599] :: 32 word list"
  have gate: "\<forall>t\<in>set ?gate. t - 5000 < MIN_LESSON_BEFORE_REWARD_MS"
    using gate_clock by auto
  note p1 = phase_gate [OF idle gate]
  let ?s1 = "run ?b (feedAt ?gate 40)"
  have idle1: "idleAt 5000 ?s1" using p1 by blast
  have c1: "rewardCooldownUntilMs ?s1 \<le> 125000" "penaltyUntilMs ?s1 \<le> 125000"
    using p1 b by simp_all
  have nz: "(125000 :: 32 word) \<noteq> 0" by simp
  have g1: "MIN_LESSON_BEFORE_REWARD_MS \<le> 125000 - 5000"
    by (simp add: MIN_LESSON_BEFORE_REWARD_MS_def)
  note sf = step_first [OF idle1 nz g1 c1]
  let ?s2 = "fst (loop_tick (lessonTick 125000 40) ?s1)"
  have tail: "\<forall>t\<in>set [125200, 125400, 125600, 125800, 126000 :: 32 word].
      MIN_LESSON_BEFORE_REWARD_MS \<le> t - 5000 \<and> 125000 \<le> t \<and> t - 125000 < QUIET_REWARD_MS"
    by (simp add: MIN_LESSON_BEFORE_REWARD_MS_def QUIET_REWARD_MS_def)
  note p2 = phase_streak [OF sf(2) nz tail]
  have "outcomes (initial_state 5000) (steadyFeed 5000 200 606 40)
          = LedUpdate # (replicate 599 LedUpdate @ (LedUpdate # replicate 5 LedUpdate))"
    unfolding split
    using b p1 sf(1) p2
    by (simp add: outcomes_append run_append steadyFeed_feedAt del: replicate_Suc upt_Suc)
  also have "\<dots> = replicate (1 + (599 + (1 + 5))) LedUpdate"
    unfolding replicate_add by simp
  finally show ?thesis by simp
qed

subsection \<open>Quiet reward: the spike penalty\<close>

text \<open>Only a spike writes the penalty deadline.\<close>

lemma rewardLogic_penalty_kept:
  assumes "avgDB t < greenMax (activeTh t) + REWARD_SPIKE_MARGIN_DB"
  shows "penaltyUntilMs (fst (rewardLogic t s)) = penaltyUntilMs s"
  using assms by (simp add: rewardLogic_def Let_def)

lemma loop_tick_penalty_kept:
  assumes "avgDB t < greenMax (activeTh t) + REWARD_SPIKE_MARGIN_DB"
  shows "penaltyUntilMs (fst (loop_tick t s)) = penaltyUntilMs s"
proof -
  let ?s1 = "sleepDetection t (lessonTransition t s)"
  have p1: "penaltyUntilMs ?s1 = penaltyUntilMs s"
    by (simp add: sleepDetection_fields lessonTransition_fields)
  have p0: "penaltyUntilMs (lessonTransition t s) = penaltyUntilMs s"
    by (simp add: lessonTransition_fields)
  have p2: "penaltyUntilMs (fst (rewardLogic t ?s1)) = penaltyUntilMs s"
    using rewardLogic_penalty_kept [OF assms, of ?s1] p1 by simp
  have p3: "penaltyUntilMs (rewardLogExpiry t (fst (rewardDisplay t (fst (rewardLogic t ?s1)))))
              = penaltyUntilMs s"
    using p2 by (simp add: rewardLogExpiry_fields rewardDisplay_fields)
  have p4: "penaltyUntilMs (fst (rewardDisplay t (fst (rewardLogic t ?s1)))) = penaltyUntilMs s"
    using p2 by (simp add: rewardDisplay_fields)
  show ?thesis
    using p0 p1 p2 p3 p4
    by (auto simp: loop_tick_def Let_def split: prod.splits)
qed

lemma run_below_good:
  assumes "needsResetAboveGood s"
    and "\<forall>t\<in>set ts. avgDB t \<le> greenMax (activeTh t)"
  shows "RewardGranted \<notin> set (outcomes s ts) \<and> needsResetAboveGood (run s ts)
       \<and> penaltyUntilMs (run s ts) = penaltyUntilMs s"
  using assms
proof (induction ts arbitrary: s)
  case Nil
  then show ?case by simp
next
  case (Cons t ts)
  have q: "avgDB t \<le> greenMax (activeTh t)" using Cons.prems(2) by simp
  have a: "snd (loop_tick t s) \<noteq> RewardGranted"
    by (rule loop_tick_flag_blocks [OF Cons.prems(1)])
  have b: "needsResetAboveGood (fst (loop_tick t s))"
    using q by (intro loop_tick_flag_kept [OF Cons.prems(1)]) simp
  have c: "penaltyUntilMs (fst (loop_tick t s)) = penaltyUntilMs s"
    using q by (intro loop_tick_penalty_kept) (simp add: REWARD_SPIKE_MARGIN_DB_def)
  have rest: "\<forall>t\<in>set ts. avgDB t \<le> greenMax (activeTh t)" using Cons.prems(2) by simp
  from Cons.IH [OF b rest] a c show ?case by simp
qed

lemma spike_tick:
  assumes "\<not> rewardShowing s" and "lastWs s = LESSON"
    and "MIN_LESSON_BEFORE_REWARD_MS \<le> now - lessonStartMs s"
  shows "loop_tick (lessonTick now 60) s =
     (rewardLogExpiry (lessonTick now 60)
        (s\<lparr>silenceStart := 0, inSleepMode := False,
           penaltyUntilMs := now + SPIKE_PENALTY_MS, quietStartMs := 0,
           needsResetAboveGood := True\<rparr>), LedUpdate)"
proof -
  let ?t = "lessonTick now 60"
  let ?s = "s\<lparr>silenceStart := 0, inSleepMode := False\<rparr>"
  have loud: "SLEEP_DB_THRESHOLD \<le> avgDB ?t"
    by (simp add: lessonTick_sel SLEEP_DB_THRESHOLD_def)
  have r: "rewardLogic ?t ?s =
      (?s\<lparr>penaltyUntilMs := nowMs ?t + SPIKE_PENALTY_MS, quietStartMs := 0,
          needsResetAboveGood := True\<rparr>, False)"
    using assms
    by (intro rewardLogic_spike)
       (simp_all add: lessonTick_sel not_less REWARD_SPIKE_MARGIN_DB_def)
  show ?thesis
    using assms(1)
    by (simp add: loop_tick_lesson_loud [OF assms(2) lessonTick_sel(3) loud] r rewardDisplay_def
        lessonTick_sel)
qed

text \<open>
  C6, as stated, fails: in a Lesson window that began at 1000000 ms, in normal mode with no
  reward showing, the reward block runs at 1060000 ms, one minute into the lesson, and
  sees the average 60.0, a spike against \<open>goodDb = 49\<close>; yet no penalty deadline is set, and
  200 ms later the lockout test \<open>nowMs < penaltyUntilMs\<close> is false, because the block stops
  at the minimum-lesson-time gate before it looks at the average.
\<close>

theorem early_spike_sets_no_lockout:
  "\<not> rewardShowing ((initial_state 1000000)\<lparr>lastWs := LESSON\<rparr>)
   \<and> ws (lessonTick 1060000 60) = LESSON
   \<and> deviceMode (lessonTick 1060000 60) = MODE_NORMAL
   \<and> greenMax (activeTh (lessonTick 1060000 60)) + REWARD_SPIKE_MARGIN_DB
        \<le> avgDB (lessonTick 1060000 60)
   \<and> penaltyUntilMs
        (fst (loop_tick (lessonTick 1060000 60) ((initial_state 1000000)\<lparr>lastWs := LESSON\<rparr>))) = 0
   \<and> \<not> nowMs (lessonTick 1060200 40)
        < penaltyUntilMs
            (fst (loop_tick (lessonTick 1060000 60) ((initial_state 1000000)\<lparr>lastWs := LESSON\<rparr>)))"
proof -
  let ?s = "(initial_state 1000000)\<lparr>lastWs := LESSON\<rparr>"
  let ?t = "lessonTick 1060000 60"
  have l: "lastWs ?s = LESSON" by simp
  have loud: "SLEEP_DB_THRESHOLD \<le> avgDB ?t"
    by (simp add: lessonTick_sel SLEEP_DB_THRESHOLD_def)
  have r: "rewardLogic ?t (?s\<lparr>silenceStart := 0, inSleepMode := False\<rparr>)
             = (?s\<lparr>silenceStart := 0, inSleepMode := False, quietStartMs := 0\<rparr>, False)"
    by (intro rewardLogic_gate [THEN trans])
       (simp_all add: lessonTick_sel initial_state_def MIN_LESSON_BEFORE_REWARD_MS_def)
  have lt: "loop_tick ?t ?s
      = (rewardLogExpiry ?t (?s\<lparr>silenceStart := 0, inSleepMode := False, quietStartMs := 0\<rparr>),
         LedUpdate)"
    unfolding loop_tick_lesson_loud [OF l lessonTick_sel(3) loud] r
    by (simp add: rewardDisplay_def initial_state_def)
  have p: "penaltyUntilMs (fst (loop_tick ?t ?s)) = 0"
    unfolding lt by (simp add: rewardLogExpiry_fields initial_state_def)
  show ?thesis
    unfolding p
    by (simp add: lessonTick_sel initial_state_def REWARD_SPIKE_MARGIN_DB_def)
qed

text \<open>
  C6, amended. In a Lesson window that has already lasted \<open>MIN_LESSON_BEFORE_REWARD_MS\<close>,
  in normal mode with no reward showing, let one tick at \<open>now\<close> see the average 60.0 against
  the Y2Y3 defaults, with \<open>now + SPIKE_PENALTY_MS\<close> inside the range of the 32-bit clock.
  Then the penalty deadline is \<open>now + SPIKE_PENALTY_MS\<close>, so the lockout test
  \<open>nowMs < penaltyUntilMs\<close> holds at every clock value of the next 120 s; the streak is
  zeroed; and over any later iterations whose average is 40.0 (against the same
  thresholds) no reward is granted and the deadline stays as set.
\<close>

theorem spike_starts_lockout:
  assumes "\<not> rewardShowing s" and "lastWs s = LESSON"
    and "MIN_LESSON_BEFORE_REWARD_MS \<le> now - lessonStartMs s"
    and "unat now + unat SPIKE_PENALTY_MS < 2 ^ 32"
    and "\<forall>t\<in>set ts. avgDB t = 40 \<and> activeTh t = bandActiveThresholds ''Y2Y3''"
  shows "penaltyUntilMs (fst (loop_tick (lessonTick now 60) s)) = now + SPIKE_PENALTY_MS
     \<and> (\<forall>c. now \<le> c \<and> unat c < unat now + unat SPIKE_PENALTY_MS
            \<longrightarrow> c < penaltyUntilMs (fst (loop_tick (lessonTick now 60) s)))
     \<and> quietStartMs (fst (loop_tick (lessonTick now 60) s)) = 0
     \<and> RewardGranted \<notin> set (outcomes s (lessonTick now 60 # ts))
     \<and> penaltyUntilMs (run s (lessonTick now 60 # ts)) = now + SPIKE_PENALTY_MS"
proof -
  let ?s' = "fst (loop_tick (lessonTick now 60) s)"
  note sp = spike_tick [OF assms(1-3)]
  have pen: "penaltyUntilMs ?s' = now + SPIKE_PENALTY_MS"
    by (simp add: sp rewardLogExpiry_fields)
  have quiet: "quietStartMs ?s' = 0" by (simp add: sp rewardLogExpiry_fields)
  have flag: "needsResetAboveGood ?s'" by (simp add: sp rewardLogExpiry_fields)
  have out0: "snd (loop_tick (lessonTick now 60) s) = LedUpdate" by (simp add: sp)
  have un: "unat (now + SPIKE_PENALTY_MS) = unat now + unat SPIKE_PENALTY_MS"
    using assms(4) unat_add_lem [of now SPIKE_PENALTY_MS] by simp
  have lock: "\<forall>c. now \<le> c \<and> unat c < unat now + unat SPIKE_PENALTY_MS \<longrightarrow> c < penaltyUntilMs ?s'"
    unfolding pen by (simp add: word_less_nat_alt un)
  have below: "\<forall>t\<in>set ts. avgDB t \<le> greenMax (activeTh t)"
    using assms(5) by (simp add: Y2Y3_active mkTh_def)
  note later = run_below_good [OF flag below]
  have "RewardGranted \<notin> set (outcomes s (lessonTick now 60 # ts))"
    using later out0 by simp
  moreover have "penaltyUntilMs (run s (lessonTick now 60 # ts)) = now + SPIKE_PENALTY_MS"
    using later pen by simp
  ultimately show ?thesis using pen lock quiet by blast
qed

text \<open>
  The amended statement used 200 s into a lesson that began at 1000000 ms, with three
  quiet ticks inside the two minutes that follow the spike.
\<close>

theorem spike_lockout_witness:
  "\<not> rewardShowing ((initial_state 1000000)\<lparr>lastWs := LESSON\<rparr>)
   \<and> lastWs ((initial_state 1000000)\<lparr>lastWs := LESSON\<rparr>) = LESSON
   \<and> MIN_LESSON_BEFORE_REWARD_MS
        \<le> 1200000 - lessonStartMs ((initial_state 1000000)\<lparr>lastWs := LESSON\<rparr>)
   \<and> unat (1200000 :: 32 word) + unat SPIKE_PENALTY_MS < 2 ^ 32
   \<and> map avgDB (feedAt [1200200, 1260000, 1319800] 40) = [40, 40, 40]
   \<and> (1200000 :: 32 word) \<le> 1319800 \<and> unat (1319800 :: 32 word) < unat (1200000 :: 32 word) + unat SPIKE_PENALTY_MS
   \<and> (1319800 :: 32 word)
        < penaltyUntilMs (fst (loop_tick (lessonTick 1200000 60)
                                 ((initial_state 1000000)\<lparr>lastWs := LESSON\<rparr>)))
   \<and> RewardGranted \<notin> set (outcomes ((initial_state 1000000)\<lparr>lastWs := LESSON\<rparr>)
                              (lessonTick 1200000 60 # feedAt [1200200, 1260000, 1319800] 40))"
proof -
  let ?s = "(initial_state 1000000)\<lparr>lastWs := LESSON\<rparr>"
  have h1: "\<not> rewardShowing ?s" by (simp add: initial_state_def)
  have h2: "lastWs ?s = LESSON" by simp
  have h3: "MIN_LESSON_BEFORE_REWARD_MS \<le> 1200000 - lessonStartMs ?s"
    by (simp add: initial_state_def MIN_LESSON_BEFORE_REWARD_MS_def)
  have h4: "unat (1200000 :: 32 word) + unat SPIKE_PENALTY_MS < 2 ^ 32"
    by (simp add: SPIKE_PENALTY_MS_def)
  have h5: "\<forall>t\<in>set (feedAt [1200200, 1260000, 1319800] 40).
         avgDB t = 40 \<and> activeTh t = bandActiveThresholds ''Y2Y3''"
    by (simp add: feedAt_def lessonTick_def)
  have h6: "(1200000 :: 32 word) \<le> 1319800
      \<and> unat (1319800 :: 32 word) < unat (1200000 :: 32 word) + unat SPIKE_PENALTY_MS"
    by (simp add: SPIKE_PENALTY_MS_def)
  from spike_starts_lockout [OF h1 h2 h3 h4 h5] h6
  have "(1319800 :: 32 word) < penaltyUntilMs (fst (loop_tick (lessonTick 1200000 60) ?s))
      \<and> RewardGranted \<notin> set (outcomes ?s
                                (lessonTick 1200000 60 # feedAt [1200200, 1260000, 1319800] 40))"
    by blast
  moreover have "map avgDB (feedAt [1200200, 1260000, 1319800] 40) = [40, 40, 40]"
    by (simp add: feedAt_def lessonTick_def)
  ultimately show ?thesis using h1 h2 h3 h4 h6 by blast
qed

end
